theory Spec2Isabelle
  imports Complex_Main "HOL-Library.Monad_Syntax"
begin

section \<open>Numbers, vectors and counted loops\<close>

text \<open>
  The renderer computes with JavaScript Numbers. They are modelled as exact reals: rounding,
  infinities and NaN are outside the model. HOL's \<open>x / 0\<close> is \<open>0\<close> where JavaScript gives
  an infinity or NaN, so every statement below that depends on the value of a quotient carries
  the hypothesis that its divisor is not zero (\<open>p \<noteq> 0\<close>, at least one segment). Reading an
  array element that does not exist gives \<open>undefined\<close> in JavaScript, which turns into NaN
  in arithmetic; such reads are the value \<open>None\<close> here.

  \<open>Math.hypot(a, b, c)\<close> is the Euclidean length.
\<close>

type_synonym vec3 = "real \<times> real \<times> real"

definition hypot3 :: "real \<Rightarrow> real \<Rightarrow> real \<Rightarrow> real" where
  "hypot3 a b c = sqrt (a * a + b * b + c * c)"

definition vlen :: "vec3 \<Rightarrow> real" where
  "vlen n = (case n of (a, b, c) \<Rightarrow> hypot3 a b c)"

text \<open>\<^verbatim>\<open>for (let i = i0; i <= n; i++) s = body(i, s)\<close>\<close>

function for_upto :: "nat \<Rightarrow> nat \<Rightarrow> (nat \<Rightarrow> 's \<Rightarrow> 's) \<Rightarrow> 's \<Rightarrow> 's" where
  "for_upto i n body s = (if i \<le> n then for_upto (Suc i) n body (body i s) else s)"
  by pat_completeness auto
termination
  by (relation "measure (\<lambda>(i, n, body, s). Suc n - i)") auto

declare for_upto.simps [simp del]

text \<open>\<^verbatim>\<open>for (let i = i0; i < n; i++) s = body(i, s)\<close>\<close>

function for_below :: "nat \<Rightarrow> nat \<Rightarrow> (nat \<Rightarrow> 's \<Rightarrow> 's) \<Rightarrow> 's \<Rightarrow> 's" where
  "for_below i n body s = (if i < n then for_below (Suc i) n body (body i s) else s)"
  by pat_completeness auto
termination
  by (relation "measure (\<lambda>(i, n, body, s). n - i)") auto

declare for_below.simps [simp del]

text \<open>
  \<open>xs[i]\<close> is \<open>undefined\<close> outside the array; \<open>xs[i] += v\<close> there would store NaN.
\<close>

definition js_get :: "'a list \<Rightarrow> nat \<Rightarrow> 'a option" where
  "js_get xs i = (if i < length xs then Some (xs ! i) else None)"

definition js_add :: "real list \<Rightarrow> nat \<Rightarrow> real \<Rightarrow> real list option" where
  "js_add xs i v = (if i < length xs then Some (xs[i := xs ! i + v]) else None)"

section \<open>The wireframe variant (P1/main.js)\<close>

definition parabolicHummingTopVertex_P1 :: "real \<Rightarrow> real \<Rightarrow> real \<Rightarrow> real \<Rightarrow> vec3" where
  "parabolicHummingTopVertex_P1 y beta h p =
     (let rBase = \<bar>y\<bar> - h;
          r = (rBase * rBase) / (2 * p);
          x = r * cos beta;
          z = r * sin beta
      in (x, y, z))"

definition generateULines :: "real \<Rightarrow> real \<Rightarrow> nat \<Rightarrow> nat \<Rightarrow> real list list" where
  "generateULines h p vSegments uSegments =
     for_upto 0 vSegments (\<lambda>j uLines.
       let y = - h + (2 * h * real j) / real vSegments;
           line = for_upto 0 uSegments (\<lambda>i line.
                    let beta = (2 * pi * real i) / real uSegments
                    in case parabolicHummingTopVertex_P1 y beta h p of
                         (x, yy, z) \<Rightarrow> line @ [x, yy, z]) []
       in uLines @ [line]) []"

definition generateVLines :: "real \<Rightarrow> real \<Rightarrow> nat \<Rightarrow> nat \<Rightarrow> real list list" where
  "generateVLines h p vSegments uSegments =
     for_upto 0 uSegments (\<lambda>i vLines.
       let beta = (2 * pi * real i) / real uSegments;
           line = for_upto 0 vSegments (\<lambda>j line.
                    let y = - h + (2 * h * real j) / real vSegments
                    in case parabolicHummingTopVertex_P1 y beta h p of
                         (x, yy, z) \<Rightarrow> line @ [x, yy, z]) []
       in vLines @ [line]) []"

text \<open>
  \<open>Model.BufferData\<close> counts the vertices of a polyline as \<^verbatim>\<open>line.length / 3\<close>.
\<close>

definition vertCount :: "real list \<Rightarrow> real" where
  "vertCount line = real (length line) / 3"

text \<open>
  The matrix library \<open>m4\<close> and the trackball are not part of the sources: their operations
  are parameters of the model, over any type of matrices.
\<close>

record 'm m4 =
  axisRotation :: "real list \<Rightarrow> real \<Rightarrow> 'm"
  translation :: "real \<Rightarrow> real \<Rightarrow> real \<Rightarrow> 'm"
  multiply :: "'m \<Rightarrow> 'm \<Rightarrow> 'm"

record 'm trackball =
  getViewMatrix :: 'm

definition computeTransforms :: "'m m4 \<Rightarrow> 'm \<Rightarrow> 'm" where
  "computeTransforms m4 modelView =
     (let rotateToPointZero = axisRotation m4 [707 / 1000, 707 / 1000, 0] (7 / 10);
          translateToPointZero = translation m4 0 0 (- 10);
          matAccum0 = multiply m4 rotateToPointZero modelView
      in multiply m4 translateToPointZero matAccum0)"

section \<open>The flat-shaded variant (P2/main.js, first file)\<close>

definition parabolicHummingTopVertex_flat :: "real \<Rightarrow> real \<Rightarrow> real \<Rightarrow> real \<Rightarrow> vec3" where
  "parabolicHummingTopVertex_flat y beta h p =
     (let rBase = \<bar>y\<bar> - h;
          r = (rBase * rBase) / (2 * p);
          x = r * cos beta;
          z = r * sin beta
      in (x, y, z))"

record grid =
  positions :: "real list"
  normals :: "real list"

record mesh = grid +
  indices :: "nat list"

definition buildGrid :: "nat \<Rightarrow> nat \<Rightarrow> real \<Rightarrow> real \<Rightarrow> grid" where
  "buildGrid uSeg vSeg h p =
     for_upto 0 vSeg (\<lambda>j g.
       let v = real j / real vSeg;
           y = - h + 2 * h * v
       in for_upto 0 uSeg (\<lambda>i g.
            let u = real i / real uSeg;
                beta = 2 * pi * u
            in case parabolicHummingTopVertex_flat y beta h p of
                 (x, yy, z) \<Rightarrow>
                   g\<lparr>positions := positions g @ [x, yy, z],
                     normals := normals g @ [0, 0, 0]\<rparr>) g)
       \<lparr>positions = [], normals = []\<rparr>"

definition buildIndices :: "nat \<Rightarrow> nat \<Rightarrow> nat list" where
  "buildIndices uSeg vSeg =
     (let vertsPerRow = uSeg + 1
      in for_below 0 vSeg (\<lambda>j ixs.
           for_below 0 uSeg (\<lambda>i ixs.
             let i0 = j * vertsPerRow + i;
                 i1 = i0 + 1;
                 i2 = i0 + vertsPerRow;
                 i3 = i2 + 1
             in (ixs @ [i0, i2, i1]) @ [i1, i2, i3]) ixs) [])"

text \<open>One round of the loop of \<open>accumulateNormalsFromIndices\<close>, for the triangle at \<open>t\<close>.\<close>

definition accumulateStep :: "real list \<Rightarrow> nat list \<Rightarrow> nat \<Rightarrow> real list \<Rightarrow> real list option" where
  "accumulateStep ps ixs t ns =
     do {
       i0 \<leftarrow> js_get ixs t;
       i1 \<leftarrow> js_get ixs (t + 1);
       i2 \<leftarrow> js_get ixs (t + 2);
       ax \<leftarrow> js_get ps (3 * i0);
       ay \<leftarrow> js_get ps (3 * i0 + 1);
       az \<leftarrow> js_get ps (3 * i0 + 2);
       bx \<leftarrow> js_get ps (3 * i1);
       by \<leftarrow> js_get ps (3 * i1 + 1);
       bz \<leftarrow> js_get ps (3 * i1 + 2);
       cx \<leftarrow> js_get ps (3 * i2);
       cy \<leftarrow> js_get ps (3 * i2 + 1);
       cz \<leftarrow> js_get ps (3 * i2 + 2);
       let ux = bx - ax; let uy = by - ay; let uz = bz - az;
       let vx = cx - ax; let vy = cy - ay; let vz = cz - az;
       let nx = uy * vz - uz * vy;
       let ny = uz * vx - ux * vz;
       let nz = ux * vy - uy * vx;
       let len = hypot3 nx ny nz;
       let (nx, ny, nz) = (if len > 1 / 1000000 then (nx / len, ny / len, nz / len)
                           else (nx, ny, nz));
       ns \<leftarrow> js_add ns (3 * i0) nx;
       ns \<leftarrow> js_add ns (3 * i0 + 1) ny;
       ns \<leftarrow> js_add ns (3 * i0 + 2) nz;
       ns \<leftarrow> js_add ns (3 * i1) nx;
       ns \<leftarrow> js_add ns (3 * i1 + 1) ny;
       ns \<leftarrow> js_add ns (3 * i1 + 2) nz;
       ns \<leftarrow> js_add ns (3 * i2) nx;
       ns \<leftarrow> js_add ns (3 * i2 + 1) ny;
       js_add ns (3 * i2 + 2) nz
     }"

function accumulateLoop :: "real list \<Rightarrow> nat list \<Rightarrow> nat \<Rightarrow> real list \<Rightarrow> real list option" where
  "accumulateLoop ps ixs t ns =
     (if t < length ixs then
        (case accumulateStep ps ixs t ns of
           None \<Rightarrow> None
         | Some ns' \<Rightarrow> accumulateLoop ps ixs (t + 3) ns')
      else Some ns)"
  by pat_completeness auto
termination
  by (relation "measure (\<lambda>(ps, ixs, t, ns). length ixs - t)") auto

declare accumulateLoop.simps [simp del]

definition accumulateNormalsFromIndices :: "real list \<Rightarrow> real list \<Rightarrow> nat list \<Rightarrow> real list option" where
  "accumulateNormalsFromIndices ps ns ixs = accumulateLoop ps ixs 0 ns"

text \<open>
  \<open>normalizeNormals\<close>. When \<open>k + 1\<close> or \<open>k + 2\<close> is outside the array, \<open>Math.hypot\<close> of
  an \<open>undefined\<close> is NaN, the comparison is false, and the three assignments of the
  fallback extend the array: the third branch. The textured variant runs the same loop, with
  the same statements, at the end of its \<open>CreateSurfaceData\<close>.
\<close>

function normalizeLoop :: "nat \<Rightarrow> real list \<Rightarrow> real list" where
  "normalizeLoop k ns =
     (if k < length ns then
        (if k + 2 < length ns then
           (let nx = ns ! k;
                ny = ns ! (k + 1);
                nz = ns ! (k + 2);
                len = hypot3 nx ny nz
            in if len > 1 / 1000000
               then normalizeLoop (k + 3) (ns[k := nx / len, k + 1 := ny / len, k + 2 := nz / len])
               else normalizeLoop (k + 3) (ns[k := 0, k + 1 := 1, k + 2 := 0]))
         else normalizeLoop (k + 3) (take k ns @ [0, 1, 0]))
      else ns)"
  by pat_completeness auto
termination
  by (relation "measure (\<lambda>(k, ns). length ns - k)") (auto simp: Let_def)

declare normalizeLoop.simps [simp del]

definition normalizeNormals :: "real list \<Rightarrow> real list" where
  "normalizeNormals ns = normalizeLoop 0 ns"

text \<open>
  An argument of \<open>CreateSurfaceData\<close>: left out (\<open>undefined\<close>) or a number of segments,
  as \<open>parseInt\<close> of a slider gives it. The flat-shaded variant declares the default
  parameter \<^verbatim>\<open>uSeg = 40\<close>, which replaces \<open>undefined\<close> only; the textured variant
  assigns \<^verbatim>\<open>uSeg = uSeg || 40\<close>, which replaces every falsy value, \<open>0\<close> too.
\<close>

datatype jsarg = Undefined | Num nat

definition default_40 :: "jsarg \<Rightarrow> nat" where
  "default_40 a = (case a of Undefined \<Rightarrow> 40 | Num n \<Rightarrow> n)"

definition or_40 :: "jsarg \<Rightarrow> nat" where
  "or_40 a = (case a of Undefined \<Rightarrow> 40 | Num n \<Rightarrow> if n = 0 then 40 else n)"

definition CreateSurfaceData_flat :: "jsarg \<Rightarrow> jsarg \<Rightarrow> mesh option" where
  "CreateSurfaceData_flat uArg vArg =
     (let uSeg = default_40 uArg;
          vSeg = default_40 vArg;
          h = 1;
          p = 1 / 2;
          g = buildGrid uSeg vSeg h p;
          ixs = buildIndices uSeg vSeg
      in do {
           ns \<leftarrow> accumulateNormalsFromIndices (positions g) (normals g) ixs;
           Some \<lparr>positions = positions g, normals = normalizeNormals ns, indices = ixs\<rparr>
         })"

definition computeModelView :: "'m m4 \<Rightarrow> 'm trackball \<Rightarrow> 'm" where
  "computeModelView m4 spaceball =
     (let modelView = getViewMatrix spaceball;
          rotateToPointZero = axisRotation m4 [707 / 1000, 707 / 1000, 0] (7 / 10);
          translateToPointZero = translation m4 0 0 (- 10);
          matAccum0 = multiply m4 rotateToPointZero modelView
      in multiply m4 translateToPointZero matAccum0)"

section \<open>The textured variant (P2/main.js, second file)\<close>

definition parabolicHummingTopVertex_tex :: "real \<Rightarrow> real \<Rightarrow> real \<Rightarrow> real \<Rightarrow> vec3" where
  "parabolicHummingTopVertex_tex y beta h p =
     (let rBase = \<bar>y\<bar> - h;
          r = (rBase * rBase) / (2 * p);
          x = r * cos beta;
          z = r * sin beta
      in (x, y, z))"

record texMesh = mesh +
  tangents :: "real list"
  texCoords :: "real list"

definition addFace :: "real list \<Rightarrow> real list \<Rightarrow> nat \<Rightarrow> nat \<Rightarrow> nat \<Rightarrow> real list option" where
  "addFace ps ns i0 i1 i2 =
     do {
       ax \<leftarrow> js_get ps (3 * i0);
       ay \<leftarrow> js_get ps (3 * i0 + 1);
       az \<leftarrow> js_get ps (3 * i0 + 2);
       bx \<leftarrow> js_get ps (3 * i1);
       by \<leftarrow> js_get ps (3 * i1 + 1);
       bz \<leftarrow> js_get ps (3 * i1 + 2);
       cx \<leftarrow> js_get ps (3 * i2);
       cy \<leftarrow> js_get ps (3 * i2 + 1);
       cz \<leftarrow> js_get ps (3 * i2 + 2);
       let ux = bx - ax; let uy = by - ay; let uz = bz - az;
       let vx = cx - ax; let vy = cy - ay; let vz = cz - az;
       let nx = uy * vz - uz * vy;
       let ny = uz * vx - ux * vz;
       let nz = ux * vy - uy * vx;
       let len = hypot3 nx ny nz;
       let (nx, ny, nz) = (if len > 1 / 1000000 then (nx / len, ny / len, nz / len)
                           else (nx, ny, nz));
       ns \<leftarrow> js_add ns (3 * i0) nx;
       ns \<leftarrow> js_add ns (3 * i0 + 1) ny;
       ns \<leftarrow> js_add ns (3 * i0 + 2) nz;
       ns \<leftarrow> js_add ns (3 * i1) nx;
       ns \<leftarrow> js_add ns (3 * i1 + 1) ny;
       ns \<leftarrow> js_add ns (3 * i1 + 2) nz;
       ns \<leftarrow> js_add ns (3 * i2) nx;
       ns \<leftarrow> js_add ns (3 * i2 + 1) ny;
       js_add ns (3 * i2 + 2) nz
     }"

text \<open>The grid loop of the textured \<open>CreateSurfaceData\<close>.\<close>

definition texGrid :: "nat \<Rightarrow> nat \<Rightarrow> real \<Rightarrow> real \<Rightarrow> texMesh" where
  "texGrid uSeg vSeg h p =
     for_upto 0 vSeg (\<lambda>j s.
       let v = real j / real vSeg;
           y = - h + 2 * h * v
       in for_upto 0 uSeg (\<lambda>i s.
            let u = real i / real uSeg;
                beta = 2 * pi * u
            in case parabolicHummingTopVertex_tex y beta h p of
                 (x, yy, z) \<Rightarrow>
                   let rBase = \<bar>y\<bar> - h;
                       r = (rBase * rBase) / (2 * p);
                       tx = - r * sin beta;
                       ty = 0;
                       tz = r * cos beta
                   in s\<lparr>positions := positions s @ [x, yy, z],
                        normals := normals s @ [0, 0, 0],
                        tangents := tangents s @ [tx, ty, tz],
                        texCoords := texCoords s @ [u, v]\<rparr>) s)
       \<lparr>positions = [], normals = [], indices = [], tangents = [], texCoords = []\<rparr>"

text \<open>
  The triangle loop; \<open>texQuad\<close> is the body of its inner loop: every quad appends its two
  triangles to the indices and adds their facet normals. A missing element (\<open>None\<close>) stays.
\<close>

definition texQuad :: "nat \<Rightarrow> nat \<Rightarrow> nat \<Rightarrow> texMesh option \<Rightarrow> texMesh option" where
  "texQuad vertsPerRow j i r =
     (let i0 = j * vertsPerRow + i;
          i1 = i0 + 1;
          i2 = i0 + vertsPerRow;
          i3 = i2 + 1
      in do {
           s \<leftarrow> r;
           let s = s\<lparr>indices := indices s @ [i0, i2, i1]\<rparr>;
           ns \<leftarrow> addFace (positions s) (normals s) i0 i2 i1;
           let s = s\<lparr>normals := ns\<rparr>;
           let s = s\<lparr>indices := indices s @ [i1, i2, i3]\<rparr>;
           ns \<leftarrow> addFace (positions s) (normals s) i1 i2 i3;
           Some (s\<lparr>normals := ns\<rparr>)
         })"

definition texTriangles :: "nat \<Rightarrow> nat \<Rightarrow> texMesh \<Rightarrow> texMesh option" where
  "texTriangles uSeg vSeg s0 =
     (let vertsPerRow = uSeg + 1
      in for_below 0 vSeg (\<lambda>j r. for_below 0 uSeg (\<lambda>i r. texQuad vertsPerRow j i r) r) (Some s0))"

definition CreateSurfaceData_tex :: "jsarg \<Rightarrow> jsarg \<Rightarrow> texMesh option" where
  "CreateSurfaceData_tex uArg vArg =
     (let uSeg = or_40 uArg;
          vSeg = or_40 vArg;
          h = 1;
          p = 1 / 2
      in do {
           s \<leftarrow> texTriangles uSeg vSeg (texGrid uSeg vSeg h p);
           Some (s\<lparr>normals := normalizeLoop 0 (normals s)\<rparr>)
         })"

text \<open>The model-view matrix that \<open>draw\<close> composes and sends to the shader.\<close>

definition draw_modelView_tex :: "'m m4 \<Rightarrow> 'm trackball \<Rightarrow> 'm" where
  "draw_modelView_tex m4 spaceball =
     (let modelView = getViewMatrix spaceball;
          rotateToPointZero = axisRotation m4 [707 / 1000, 707 / 1000, 0] (7 / 10);
          translateToPointZero = translation m4 0 0 (- 10);
          matAccum0 = multiply m4 rotateToPointZero modelView;
          matAccum1 = multiply m4 translateToPointZero matAccum0
      in matAccum1)"

section \<open>Notions of the specification\<close>

text \<open>The specification's formula for the surface point (its section 4.1).\<close>

definition spec_surface_point :: "real \<Rightarrow> real \<Rightarrow> real \<Rightarrow> real \<Rightarrow> vec3" where
  "spec_surface_point y beta h p =
     (let rBase = \<bar>y\<bar> - h;
          r = rBase\<^sup>2 / (2 * p)
      in (r * cos beta, y, r * sin beta))"

text \<open>The specification's two triangles of the quad \<open>(i, j)\<close> (its section 4.2).\<close>

definition spec_quad_triangles :: "nat \<Rightarrow> nat \<Rightarrow> nat \<Rightarrow> nat list" where
  "spec_quad_triangles rowWidth i j =
     (let i0 = j * rowWidth + i;
          i1 = i0 + 1;
          i2 = i0 + rowWidth;
          i3 = i2 + 1
      in [i0, i2, i1, i1, i2, i3])"

text \<open>The three numbers of vertex \<open>k\<close> in a flat array.\<close>

definition vec_at :: "real list \<Rightarrow> nat \<Rightarrow> vec3" where
  "vec_at xs k = (xs ! (3 * k), xs ! (3 * k + 1), xs ! (3 * k + 2))"

text \<open>The three numbers that a grid loop pushes for one vertex.\<close>

definition vec_list :: "vec3 \<Rightarrow> real list" where
  "vec_list w = (case w of (x, yy, z) \<Rightarrow> [x, yy, z])"

text \<open>The sample points of the grid: row \<open>j\<close> and column \<open>i\<close>.\<close>

definition row_y :: "real \<Rightarrow> nat \<Rightarrow> nat \<Rightarrow> real" where
  "row_y h vSeg j = - h + 2 * h * (real j / real vSeg)"

definition col_beta :: "nat \<Rightarrow> nat \<Rightarrow> real" where
  "col_beta uSeg i = 2 * pi * (real i / real uSeg)"

text \<open>The cross product of the two edges \<open>b - a\<close> and \<open>c - a\<close> of a triangle.\<close>

definition edge_cross :: "vec3 \<Rightarrow> vec3 \<Rightarrow> vec3 \<Rightarrow> vec3" where
  "edge_cross a b c =
     (case a of (ax, ay, az) \<Rightarrow> case b of (bx, by, bz) \<Rightarrow> case c of (cx, cy, cz) \<Rightarrow>
        ((by - ay) * (cz - az) - (bz - az) * (cy - ay),
         (bz - az) * (cx - ax) - (bx - ax) * (cz - az),
         (bx - ax) * (cy - ay) - (by - ay) * (cx - ax)))"

text \<open>A vector divided by its length.\<close>

definition normalized :: "vec3 \<Rightarrow> vec3" where
  "normalized n = (case n of (nx, ny, nz) \<Rightarrow> (nx / vlen n, ny / vlen n, nz / vlen n))"

text \<open>What a triangle adds to each of its vertices: its face normal, normalised only when the
  length of the cross product exceeds \<open>1e-6\<close>.\<close>

definition face_contribution :: "vec3 \<Rightarrow> vec3 \<Rightarrow> vec3 \<Rightarrow> vec3" where
  "face_contribution a b c =
     (if vlen (edge_cross a b c) > 1 / 1000000 then normalized (edge_cross a b c)
      else edge_cross a b c)"

text \<open>Adding a vector to vertex \<open>i\<close> of a flat array.\<close>

definition add_at :: "real list \<Rightarrow> nat \<Rightarrow> vec3 \<Rightarrow> real list" where
  "add_at ns i n =
     (case n of (nx, ny, nz) \<Rightarrow>
        ns[3 * i := ns ! (3 * i) + nx, 3 * i + 1 := ns ! (3 * i + 1) + ny,
           3 * i + 2 := ns ! (3 * i + 2) + nz])"

text \<open>Adding the contribution of a triangle to its three vertices.\<close>

definition add_face :: "real list \<Rightarrow> real list \<Rightarrow> nat \<Rightarrow> nat \<Rightarrow> nat \<Rightarrow> real list" where
  "add_face ps ns i0 i1 i2 =
     (let n = face_contribution (vec_at ps i0) (vec_at ps i1) (vec_at ps i2)
      in add_at (add_at (add_at ns i0 n) i1 n) i2 n)"

text \<open>Adding the contributions of the triangles of an index list, one after the other.\<close>

fun spec_accumulate :: "real list \<Rightarrow> nat list \<Rightarrow> real list \<Rightarrow> real list" where
  "spec_accumulate ps (i0 # i1 # i2 # rest) ns = spec_accumulate ps rest (add_face ps ns i0 i1 i2)"
| "spec_accumulate ps _ ns = ns"

text \<open>The property of a normal (section 8 of the specification): its length is within \<open>1e-4\<close>
  of 1, or it is the fallback.\<close>

definition unit_or_fallback :: "vec3 \<Rightarrow> bool" where
  "unit_or_fallback n \<longleftrightarrow> \<bar>vlen n - 1\<bar> \<le> 1 / 10000 \<or> n = (0, 1, 0)"

text \<open>The tangent of the specification (its section 4.3).\<close>

definition spec_tangent :: "real \<Rightarrow> real \<Rightarrow> real \<Rightarrow> real \<Rightarrow> vec3" where
  "spec_tangent y beta h p =
     (let r = (\<bar>y\<bar> - h)\<^sup>2 / (2 * p)
      in (- r * sin beta, 0, r * cos beta))"

text \<open>Appending triangles to the indices of a mesh and adding their contributions.\<close>

definition add_triangles :: "nat list \<Rightarrow> texMesh \<Rightarrow> texMesh" where
  "add_triangles q s =
     s\<lparr>indices := indices s @ q, normals := spec_accumulate (positions s) q (normals s)\<rparr>"

text \<open>The sum of two vectors.\<close>

definition vadd :: "vec3 \<Rightarrow> vec3 \<Rightarrow> vec3" where
  "vadd a b = (case a of (ax, ay, az) \<Rightarrow> case b of (bx, by, bz) \<Rightarrow> (ax + bx, ay + by, az + bz))"

text \<open>The triangles of an index list.\<close>

fun triangles :: "nat list \<Rightarrow> (nat \<times> nat \<times> nat) list" where
  "triangles (a # b # c # rest) = (a, b, c) # triangles rest"
| "triangles _ = []"

text \<open>The triangles that have \<open>k\<close> as a vertex.\<close>

definition faces_at :: "nat list \<Rightarrow> nat \<Rightarrow> (nat \<times> nat \<times> nat) list" where
  "faces_at ixs k = filter (\<lambda>t. case t of (a, b, c) \<Rightarrow> k = a \<or> k = b \<or> k = c) (triangles ixs)"

text \<open>The length of the cross product of the edges of a triangle of the mesh: a triangle is
  degenerate when it is at most \<open>1e-6\<close>.\<close>

definition face_cross_len :: "real list \<Rightarrow> nat \<times> nat \<times> nat \<Rightarrow> real" where
  "face_cross_len ps t =
     (case t of (a, b, c) \<Rightarrow> vlen (edge_cross (vec_at ps a) (vec_at ps b) (vec_at ps c)))"

text \<open>The tangent of vertex \<open>k\<close> has unit length, or \<open>k\<close> belongs to a degenerate face
  (section 3 of the specification).\<close>

definition tangent_unit_or_degenerate :: "texMesh \<Rightarrow> nat \<Rightarrow> bool" where
  "tangent_unit_or_degenerate m k \<longleftrightarrow>
     vlen (vec_at (tangents m) k) = 1
     \<or> (\<exists>t \<in> set (faces_at (indices m) k). face_cross_len (positions m) t \<le> 1 / 1000000)"

section \<open>Loop lemmas\<close>

lemma for_upto_fold: "for_upto i n body s = fold body [i..<Suc n] s"
proof (induction i n body s rule: for_upto.induct)
  case (1 i n body s)
  show ?case
  proof (cases "i \<le> n")
    case True
    then have "[i..<Suc n] = i # [Suc i..<Suc n]"
      by (simp add: upt_conv_Cons)
    with True 1 show ?thesis
      by (subst for_upto.simps) simp
  next
    case False
    then show ?thesis
      by (subst for_upto.simps) simp
  qed
qed

lemma for_below_fold: "for_below i n body s = fold body [i..<n] s"
proof (induction i n body s rule: for_below.induct)
  case (1 i n body s)
  show ?case
  proof (cases "i < n")
    case True
    then have "[i..<n] = i # [Suc i..<n]"
      by (simp add: upt_conv_Cons)
    with True 1 show ?thesis
      by (subst for_below.simps) simp
  next
    case False
    then show ?thesis
      by (subst for_below.simps) simp
  qed
qed

lemma fold_push: "fold (\<lambda>i acc. acc @ f i) xs acc = acc @ concat (map f xs)"
  by (induction xs arbitrary: acc) simp_all

lemma for_upto_push:
  assumes "\<And>i acc. body i acc = acc @ f i"
  shows "for_upto i n body acc = acc @ concat (map f [i..<Suc n])"
proof -
  have "body = (\<lambda>i acc. acc @ f i)"
    using assms by (simp add: fun_eq_iff)
  then show ?thesis
    by (simp only: for_upto_fold fold_push)
qed

lemma for_below_push:
  assumes "\<And>i acc. body i acc = acc @ f i"
  shows "for_below i n body acc = acc @ concat (map f [i..<n])"
proof -
  have "body = (\<lambda>i acc. acc @ f i)"
    using assms by (simp add: fun_eq_iff)
  then show ?thesis
    by (simp only: for_below_fold fold_push)
qed

lemma length_concat_const:
  "(\<And>x. x \<in> set xs \<Longrightarrow> length (f x) = c) \<Longrightarrow> length (concat (map f xs)) = c * length xs"
  by (induction xs) simp_all

lemma length_vec_list [simp]: "length (vec_list w) = 3"
  by (simp add: vec_list_def split: prod.splits)

lemma length_concat_vec_list:
  "length (concat (map (\<lambda>i. vec_list (f i)) xs)) = 3 * length xs"
  by (rule length_concat_const) simp

lemma for_upto_field_push:
  assumes "\<And>i s. sel (body i s) = sel s @ f i"
  shows "sel (for_upto i n body s) = sel s @ concat (map f [i..<Suc n])"
proof -
  have "sel (fold body xs s) = sel s @ concat (map f xs)" for xs
    by (induction xs arbitrary: s) (simp_all add: assms)
  then show ?thesis
    by (simp only: for_upto_fold)
qed

lemma for_below_inv:
  assumes "P i s" and "i \<le> n"
    and "\<And>k t. i \<le> k \<Longrightarrow> k < n \<Longrightarrow> P k t \<Longrightarrow> P (Suc k) (body k t)"
  shows "P n (for_below i n body s)"
  using assms
proof (induction i n body s rule: for_below.induct)
  case (1 i n body s)
  show ?case
  proof (cases "i < n")
    case True
    have "P n (for_below (Suc i) n body (body i s))"
    proof (rule 1(1) [OF True])
      show "P (Suc i) (body i s)"
        using 1(2) True by (intro 1(4)) simp_all
      show "Suc i \<le> n"
        using True by simp
      show "\<And>k t. Suc i \<le> k \<Longrightarrow> k < n \<Longrightarrow> P k t \<Longrightarrow> P (Suc k) (body k t)"
        by (intro 1(4)) simp_all
    qed
    with True show ?thesis
      by (subst for_below.simps) simp
  next
    case False
    with 1(2,3) show ?thesis
      by (subst for_below.simps) simp
  qed
qed

lemma nested_field_push:
  assumes "\<And>j i s. sel (inner j i s) = sel s @ f j i"
  shows "sel (for_upto 0 n (\<lambda>j s. for_upto 0 m (inner j) s) s0)
       = sel s0 @ concat (map (\<lambda>j. concat (map (f j) [0..<Suc m])) [0..<Suc n])"
proof (rule for_upto_field_push)
  fix j s
  show "sel (for_upto 0 m (inner j) s) = sel s @ concat (map (f j) [0..<Suc m])"
    by (rule for_upto_field_push) (rule assms)
qed

lemma buildGrid_positions:
  "positions (buildGrid uSeg vSeg h p) =
     concat (map (\<lambda>j. concat (map (\<lambda>i. vec_list (parabolicHummingTopVertex_flat
        (row_y h vSeg j) (col_beta uSeg i) h p)) [0..<Suc uSeg])) [0..<Suc vSeg])"
proof -
  have "positions (buildGrid uSeg vSeg h p) = positions \<lparr>positions = [], normals = []\<rparr> @
     concat (map (\<lambda>j. concat (map (\<lambda>i. vec_list (parabolicHummingTopVertex_flat
        (row_y h vSeg j) (col_beta uSeg i) h p)) [0..<Suc uSeg])) [0..<Suc vSeg])"
    unfolding buildGrid_def Let_def
    by (rule nested_field_push) (simp add: vec_list_def row_y_def col_beta_def split: prod.splits)
  then show ?thesis by simp
qed

lemma buildGrid_normals:
  "normals (buildGrid uSeg vSeg h p) =
     concat (map (\<lambda>j. concat (map (\<lambda>i. [0, 0, 0]) [0..<Suc uSeg])) [0..<Suc vSeg])"
proof -
  have "normals (buildGrid uSeg vSeg h p) = normals \<lparr>positions = [], normals = []\<rparr> @
     concat (map (\<lambda>j. concat (map (\<lambda>i. [0, 0, 0]) [0..<Suc uSeg])) [0..<Suc vSeg])"
    unfolding buildGrid_def Let_def
    by (rule nested_field_push) (simp split: prod.splits)
  then show ?thesis by simp
qed

lemma nested_push_below:
  assumes "\<And>j i acc. inner j i acc = acc @ f j i"
  shows "for_below 0 n (\<lambda>j s. for_below 0 m (inner j) s) s0
       = s0 @ concat (map (\<lambda>j. concat (map (f j) [0..<m])) [0..<n])"
proof (rule for_below_push)
  fix j s
  show "for_below 0 m (inner j) s = s @ concat (map (f j) [0..<m])"
    by (rule for_below_push) (rule assms)
qed

lemma buildIndices_quads:
  "buildIndices uSeg vSeg =
     concat (map (\<lambda>j. concat (map (\<lambda>i. spec_quad_triangles (uSeg + 1) i j) [0..<uSeg])) [0..<vSeg])"
proof -
  have "buildIndices uSeg vSeg = [] @
     concat (map (\<lambda>j. concat (map (\<lambda>i. spec_quad_triangles (uSeg + 1) i j) [0..<uSeg])) [0..<vSeg])"
    unfolding buildIndices_def Let_def
    by (rule nested_push_below) (simp add: spec_quad_triangles_def Let_def)
  then show ?thesis by simp
qed

lemma length_spec_quad [simp]: "length (spec_quad_triangles w i j) = 6"
  by (simp add: spec_quad_triangles_def Let_def)

lemma length_buildIndices: "length (buildIndices uSeg vSeg) = 6 * uSeg * vSeg"
  by (simp add: buildIndices_quads length_concat_const algebra_simps)

lemma length_buildGrid_positions:
  "length (positions (buildGrid uSeg vSeg h p)) = 3 * (uSeg + 1) * (vSeg + 1)"
  by (simp add: buildGrid_positions length_concat_const algebra_simps del: upt_Suc)

lemma length_buildGrid_normals:
  "length (normals (buildGrid uSeg vSeg h p)) = 3 * (uSeg + 1) * (vSeg + 1)"
  by (simp add: buildGrid_normals length_concat_const algebra_simps del: upt_Suc)

lemma spec_quad_bound:
  assumes "i < uSeg" and "j < vSeg" and "x \<in> set (spec_quad_triangles (uSeg + 1) i j)"
  shows "x < (uSeg + 1) * (vSeg + 1)"
proof -
  have "j * (uSeg + 1) + (uSeg + 1) \<le> vSeg * (uSeg + 1)"
    using assms(2) by (metis Suc_leI mult_Suc mult_le_mono1 add.commute)
  then have "j * (uSeg + 1) + i + (uSeg + 1) + 1 < (uSeg + 1) * (vSeg + 1)"
    using assms(1) by (simp add: algebra_simps)
  with assms(3) show ?thesis
    by (auto simp: spec_quad_triangles_def Let_def)
qed

lemma buildIndices_bound:
  "x \<in> set (buildIndices uSeg vSeg) \<Longrightarrow> x < (uSeg + 1) * (vSeg + 1)"
proof -
  assume "x \<in> set (buildIndices uSeg vSeg)"
  then obtain i j where "i < uSeg" "j < vSeg" "x \<in> set (spec_quad_triangles (uSeg + 1) i j)"
    unfolding buildIndices_quads by auto
  then show ?thesis
    by (rule spec_quad_bound)
qed

section \<open>The surface point\<close>

text \<open>
  C4. For every \<open>y\<close>, \<open>beta\<close>, \<open>h\<close> and \<open>p \<noteq> 0\<close>, the surface function of each of the three
  variants returns the point \<open>(x, y, z)\<close> of the specification's formula: \<open>rBase = |y| - h\<close>,
  \<open>r = rBase\<^sup>2 / (2p)\<close>, \<open>x = r cos beta\<close>, \<open>z = r sin beta\<close>. The three are functions of
  their four arguments alone (no state is read or written), so they are pure and
  deterministic, and they are the same function.
\<close>

theorem surface_point_formula:
  assumes "p \<noteq> 0"
  shows "parabolicHummingTopVertex_P1 y beta h p = spec_surface_point y beta h p
       \<and> parabolicHummingTopVertex_flat y beta h p = spec_surface_point y beta h p
       \<and> parabolicHummingTopVertex_tex y beta h p = spec_surface_point y beta h p"
  by (simp add: parabolicHummingTopVertex_P1_def parabolicHummingTopVertex_flat_def
      parabolicHummingTopVertex_tex_def spec_surface_point_def Let_def power2_eq_square)

theorem surface_point_formula_witness:
  "(1 / 2 :: real) \<noteq> 0
   \<and> parabolicHummingTopVertex_P1 (1 / 2) 0 1 (1 / 2) = (1 / 4, 1 / 2, 0)
   \<and> parabolicHummingTopVertex_flat (1 / 2) 0 1 (1 / 2) = (1 / 4, 1 / 2, 0)
   \<and> parabolicHummingTopVertex_tex (1 / 2) 0 1 (1 / 2) = (1 / 4, 1 / 2, 0)"
proof -
  have p: "(1 / 2 :: real) \<noteq> 0"
    by simp
  have "spec_surface_point (1 / 2) 0 1 (1 / 2) = (1 / 4, 1 / 2, 0)"
    by (simp add: spec_surface_point_def Let_def power2_eq_square)
  with p surface_point_formula [OF p, of "1 / 2" 0 1] show ?thesis
    by simp
qed

text \<open>
  C8. For every input \<open>y\<close>, \<open>beta\<close>, \<open>h\<close>, \<open>p\<close>, the second component of the point that
  \<open>parabolicHummingTopVertex\<close> returns is the input \<open>y\<close> itself: it is passed through,
  no arithmetic touches it. This holds in each of the three variants.
\<close>

theorem surface_point_y_exact:
  "fst (snd (parabolicHummingTopVertex_P1 y beta h p)) = y
   \<and> fst (snd (parabolicHummingTopVertex_flat y beta h p)) = y
   \<and> fst (snd (parabolicHummingTopVertex_tex y beta h p)) = y"
  by (simp add: parabolicHummingTopVertex_P1_def parabolicHummingTopVertex_flat_def
      parabolicHummingTopVertex_tex_def Let_def)

section \<open>The model-view matrix\<close>

text \<open>
  C9. For every view matrix that the trackball returns, \<open>computeTransforms\<close> of the wireframe
  variant, \<open>computeModelView\<close> of the flat-shaded variant and the composition in \<open>draw\<close> of
  the textured variant give the same model-view matrix:
  \<open>translation(0, 0, -10) \<cdot> (axisRotation((0.707, 0.707, 0), 0.7) \<cdot> view)\<close>, whatever the
  matrix library computes for a rotation, a translation and a product.
\<close>

theorem model_view_same:
  "computeTransforms m4 (getViewMatrix spaceball) = computeModelView m4 spaceball
   \<and> draw_modelView_tex m4 spaceball = computeModelView m4 spaceball
   \<and> computeModelView m4 spaceball =
       multiply m4 (translation m4 0 0 (- 10))
         (multiply m4 (axisRotation m4 [707 / 1000, 707 / 1000, 0] (7 / 10))
            (getViewMatrix spaceball))"
  by (simp add: computeTransforms_def computeModelView_def draw_modelView_tex_def Let_def)

section \<open>The wireframe polylines\<close>

lemma generateULines_map:
  "generateULines h p vSegments uSegments =
     map (\<lambda>j. concat (map (\<lambda>i. vec_list (parabolicHummingTopVertex_P1
            (- h + (2 * h * real j) / real vSegments)
            ((2 * pi * real i) / real uSegments) h p)) [0..<Suc uSegments])) [0..<Suc vSegments]"
proof -
  have "generateULines h p vSegments uSegments =
     [] @ concat (map (\<lambda>j. [concat (map (\<lambda>i. vec_list (parabolicHummingTopVertex_P1
            (- h + (2 * h * real j) / real vSegments)
            ((2 * pi * real i) / real uSegments) h p)) [0..<Suc uSegments])]) [0..<Suc vSegments])"
    unfolding generateULines_def
  proof (rule for_upto_push)
    fix j and acc :: "real list list"
    have "for_upto 0 uSegments (\<lambda>i line.
             let beta = (2 * pi * real i) / real uSegments
             in case parabolicHummingTopVertex_P1 (- h + (2 * h * real j) / real vSegments) beta h p of
                  (x, yy, z) \<Rightarrow> line @ [x, yy, z]) []
        = [] @ concat (map (\<lambda>i. vec_list (parabolicHummingTopVertex_P1
             (- h + (2 * h * real j) / real vSegments)
             ((2 * pi * real i) / real uSegments) h p)) [0..<Suc uSegments])"
      by (rule for_upto_push) (simp add: vec_list_def split: prod.splits)
    then show "(let y = - h + (2 * h * real j) / real vSegments;
           line = for_upto 0 uSegments (\<lambda>i line.
                    let beta = (2 * pi * real i) / real uSegments
                    in case parabolicHummingTopVertex_P1 y beta h p of
                         (x, yy, z) \<Rightarrow> line @ [x, yy, z]) []
       in acc @ [line]) = acc @ [concat (map (\<lambda>i. vec_list (parabolicHummingTopVertex_P1
            (- h + (2 * h * real j) / real vSegments)
            ((2 * pi * real i) / real uSegments) h p)) [0..<Suc uSegments])]"
      by (simp add: Let_def)
  qed
  then show ?thesis
    by (simp del: upt_Suc)
qed

lemma generateVLines_map:
  "generateVLines h p vSegments uSegments =
     map (\<lambda>i. concat (map (\<lambda>j. vec_list (parabolicHummingTopVertex_P1
            (- h + (2 * h * real j) / real vSegments)
            ((2 * pi * real i) / real uSegments) h p)) [0..<Suc vSegments])) [0..<Suc uSegments]"
proof -
  have "generateVLines h p vSegments uSegments =
     [] @ concat (map (\<lambda>i. [concat (map (\<lambda>j. vec_list (parabolicHummingTopVertex_P1
            (- h + (2 * h * real j) / real vSegments)
            ((2 * pi * real i) / real uSegments) h p)) [0..<Suc vSegments])]) [0..<Suc uSegments])"
    unfolding generateVLines_def
  proof (rule for_upto_push)
    fix i and acc :: "real list list"
    have "for_upto 0 vSegments (\<lambda>j line.
             let y = - h + (2 * h * real j) / real vSegments
             in case parabolicHummingTopVertex_P1 y ((2 * pi * real i) / real uSegments) h p of
                  (x, yy, z) \<Rightarrow> line @ [x, yy, z]) []
        = [] @ concat (map (\<lambda>j. vec_list (parabolicHummingTopVertex_P1
             (- h + (2 * h * real j) / real vSegments)
             ((2 * pi * real i) / real uSegments) h p)) [0..<Suc vSegments])"
      by (rule for_upto_push) (simp add: vec_list_def split: prod.splits)
    then show "(let beta = (2 * pi * real i) / real uSegments;
           line = for_upto 0 vSegments (\<lambda>j line.
                    let y = - h + (2 * h * real j) / real vSegments
                    in case parabolicHummingTopVertex_P1 y beta h p of
                         (x, yy, z) \<Rightarrow> line @ [x, yy, z]) []
       in acc @ [line]) = acc @ [concat (map (\<lambda>j. vec_list (parabolicHummingTopVertex_P1
            (- h + (2 * h * real j) / real vSegments)
            ((2 * pi * real i) / real uSegments) h p)) [0..<Suc vSegments])]"
      by (simp add: Let_def)
  qed
  then show ?thesis
    by (simp del: upt_Suc)
qed

text \<open>
  C7. For \<open>uSegments \<ge> 1\<close> and \<open>vSegments \<ge> 1\<close>, the wireframe builder gives \<open>vSegments + 1\<close>
  U-polylines of \<open>uSegments + 1\<close> vertices each (three numbers a vertex), and
  \<open>uSegments + 1\<close> V-polylines of \<open>vSegments + 1\<close> vertices each.
\<close>

theorem wireframe_polyline_counts:
  assumes "1 \<le> uSegments" and "1 \<le> vSegments"
  shows "length (generateULines h p vSegments uSegments) = vSegments + 1
       \<and> (\<forall>line \<in> set (generateULines h p vSegments uSegments).
            length line = 3 * (uSegments + 1) \<and> vertCount line = real (uSegments + 1))
       \<and> length (generateVLines h p vSegments uSegments) = uSegments + 1
       \<and> (\<forall>line \<in> set (generateVLines h p vSegments uSegments).
            length line = 3 * (vSegments + 1) \<and> vertCount line = real (vSegments + 1))"
proof (intro conjI ballI)
  show "length (generateULines h p vSegments uSegments) = vSegments + 1"
    by (simp add: generateULines_map del: upt_Suc)
  show "length (generateVLines h p vSegments uSegments) = uSegments + 1"
    by (simp add: generateVLines_map del: upt_Suc)
next
  fix line assume "line \<in> set (generateULines h p vSegments uSegments)"
  then have len: "length line = 3 * (uSegments + 1)"
    unfolding generateULines_map by (auto simp: length_concat_vec_list simp del: upt_Suc)
  then show "length line = 3 * (uSegments + 1)" .
  from len show "vertCount line = real (uSegments + 1)"
    by (simp add: vertCount_def)
next
  fix line assume "line \<in> set (generateVLines h p vSegments uSegments)"
  then have len: "length line = 3 * (vSegments + 1)"
    unfolding generateVLines_map by (auto simp: length_concat_vec_list simp del: upt_Suc)
  then show "length line = 3 * (vSegments + 1)" .
  from len show "vertCount line = real (vSegments + 1)"
    by (simp add: vertCount_def)
qed

theorem wireframe_polyline_counts_witness:
  "(1::nat) \<le> 4 \<and> (1::nat) \<le> 2
   \<and> length (generateULines 1 (1 / 2) 2 4) = 3
   \<and> list_all (\<lambda>line. length line = 15 \<and> vertCount line = 5) (generateULines 1 (1 / 2) 2 4)
   \<and> length (generateVLines 1 (1 / 2) 2 4) = 5
   \<and> list_all (\<lambda>line. length line = 9 \<and> vertCount line = 3) (generateVLines 1 (1 / 2) 2 4)"
  using wireframe_polyline_counts [of 4 2 1 "1 / 2"]
  by (simp add: list_all_iff)

section \<open>Facet normals\<close>

lemma length_add_at [simp]: "length (add_at ns i n) = length ns"
  by (simp add: add_at_def split: prod.splits)

lemma length_add_face [simp]: "length (add_face ps ns i0 i1 i2) = length ns"
  by (simp add: add_face_def Let_def)

lemma js_add_add_at:
  assumes "3 * i + 2 < length ns"
  shows "do { ns \<leftarrow> js_add ns (3 * i) nx; ns \<leftarrow> js_add ns (3 * i + 1) ny; ns \<leftarrow> js_add ns (3 * i + 2) nz; f ns }
       = f (add_at ns i (nx, ny, nz))"
  using assms by (simp add: js_add_def add_at_def)

lemma addFace_in_range:
  assumes "3 * i0 + 2 < length ps" "3 * i1 + 2 < length ps" "3 * i2 + 2 < length ps"
    and "3 * i0 + 2 < length ns" "3 * i1 + 2 < length ns" "3 * i2 + 2 < length ns"
  shows "addFace ps ns i0 i1 i2 = Some (add_face ps ns i0 i1 i2)"
proof -
  obtain nx ny nz where n: "face_contribution (vec_at ps i0) (vec_at ps i1) (vec_at ps i2) = (nx, ny, nz)"
    by (cases "face_contribution (vec_at ps i0) (vec_at ps i1) (vec_at ps i2)") 
  have get: "\<And>k. k < length ps \<Longrightarrow> js_get ps k = Some (ps ! k)"
    by (simp add: js_get_def)
  have "addFace ps ns i0 i1 i2 =
     do { ns \<leftarrow> js_add ns (3 * i0) nx; ns \<leftarrow> js_add ns (3 * i0 + 1) ny; ns \<leftarrow> js_add ns (3 * i0 + 2) nz;
          ns \<leftarrow> js_add ns (3 * i1) nx; ns \<leftarrow> js_add ns (3 * i1 + 1) ny; ns \<leftarrow> js_add ns (3 * i1 + 2) nz;
          ns \<leftarrow> js_add ns (3 * i2) nx; ns \<leftarrow> js_add ns (3 * i2 + 1) ny; ns \<leftarrow> js_add ns (3 * i2 + 2) nz;
          Some ns }"
    using n assms(1-3) unfolding addFace_def
    by (simp add: get Let_def face_contribution_def edge_cross_def vec_at_def normalized_def
        vlen_def split: if_splits)
  also have "\<dots> = Some (add_at (add_at (add_at ns i0 (nx, ny, nz)) i1 (nx, ny, nz)) i2 (nx, ny, nz))"
    using assms(4-6) by (simp only: js_add_add_at length_add_at)
  finally show ?thesis
    by (simp add: add_face_def n Let_def)
qed

lemma accumulateStep_addFace:
  assumes "t + 2 < length ixs"
  shows "accumulateStep ps ixs t ns = addFace ps ns (ixs ! t) (ixs ! (t + 1)) (ixs ! (t + 2))"
  using assms unfolding accumulateStep_def addFace_def by (simp add: js_get_def)

lemma length_spec_accumulate [simp]: "length (spec_accumulate ps ixs ns) = length ns"
  by (induction ps ixs ns rule: spec_accumulate.induct) simp_all

lemma js_get_shift3: "js_get (a # b # c # xs) (t + 3) = js_get xs t"
  by (simp add: js_get_def)

lemma accumulateStep_shift3:
  "accumulateStep ps (a # b # c # ixs) (t + 3) ns = accumulateStep ps ixs t ns"
proof -
  have "js_get (a # b # c # ixs) (t + 3 + 1) = js_get ixs (t + 1)"
    "js_get (a # b # c # ixs) (t + 3 + 2) = js_get ixs (t + 2)"
    by (simp_all add: js_get_def)
  then show ?thesis
    unfolding accumulateStep_def by (simp only: js_get_shift3)
qed

lemma accumulateLoop_shift3:
  "accumulateLoop ps (a # b # c # ixs) (t + 3) ns = accumulateLoop ps ixs t ns"
proof (induction ps ixs t ns rule: accumulateLoop.induct)
  case (1 ps ixs t ns)
  show ?case
  proof (cases "t < length ixs")
    case True
    show ?thesis
    proof (cases "accumulateStep ps ixs t ns")
      case None
      with True show ?thesis
        by (subst (1 2) accumulateLoop.simps) (simp add: accumulateStep_shift3)
    next
      case (Some ns')
      with True 1 [OF True Some] show ?thesis
        by (subst (1 2) accumulateLoop.simps) (simp add: accumulateStep_shift3)
    qed
  next
    case False
    then show ?thesis
      by (subst (1 2) accumulateLoop.simps) simp
  qed
qed

lemma accumulate_Cons3:
  "accumulateNormalsFromIndices ps ns (i0 # i1 # i2 # rest) =
     do { ns' \<leftarrow> addFace ps ns i0 i1 i2; accumulateNormalsFromIndices ps ns' rest }"
proof -
  have "accumulateLoop ps (i0 # i1 # i2 # rest) 0 ns =
     (case accumulateStep ps (i0 # i1 # i2 # rest) 0 ns of None \<Rightarrow> None
      | Some ns' \<Rightarrow> accumulateLoop ps (i0 # i1 # i2 # rest) (0 + 3) ns')"
    by (subst accumulateLoop.simps) simp
  then show ?thesis
    unfolding accumulateNormalsFromIndices_def accumulateLoop_shift3
    by (simp add: accumulateStep_addFace split: option.splits)
qed

lemma accumulate_in_range:
  assumes "length ixs mod 3 = 0"
    and "\<forall>x \<in> set ixs. 3 * x + 2 < length ps \<and> 3 * x + 2 < length ns"
  shows "accumulateNormalsFromIndices ps ns ixs = Some (spec_accumulate ps ixs ns)"
  using assms
proof (induction ps ixs ns rule: spec_accumulate.induct)
  case (1 ps i0 i1 i2 rest ns)
  have "addFace ps ns i0 i1 i2 = Some (add_face ps ns i0 i1 i2)"
    using 1(3) by (intro addFace_in_range) simp_all
  moreover have "accumulateNormalsFromIndices ps (add_face ps ns i0 i1 i2) rest
      = Some (spec_accumulate ps rest (add_face ps ns i0 i1 i2))"
    using 1(2,3) by (intro 1(1)) simp_all
  ultimately show ?case
    by (simp add: accumulate_Cons3)
qed (simp_all add: accumulateNormalsFromIndices_def accumulateLoop.simps)

lemma hypot3_nonneg [simp]: "0 \<le> hypot3 a b c"
  by (simp add: hypot3_def)

lemma hypot3_scaled:
  assumes "0 < l"
  shows "hypot3 (a / l) (b / l) (c / l) = hypot3 a b c / l"
proof -
  have "(a / l) * (a / l) + (b / l) * (b / l) + (c / l) * (c / l) = (a * a + b * b + c * c) / (l * l)"
    by (simp add: add_divide_distrib)
  then have "hypot3 (a / l) (b / l) (c / l) = sqrt (a * a + b * b + c * c) / sqrt (l * l)"
    by (simp add: hypot3_def real_sqrt_divide)
  also have "sqrt (l * l) = l"
    using assms by simp
  finally show ?thesis
    by (simp add: hypot3_def)
qed

lemma hypot3_normalized:
  assumes "0 < hypot3 a b c"
  shows "hypot3 (a / hypot3 a b c) (b / hypot3 a b c) (c / hypot3 a b c) = 1"
  using assms by (simp add: hypot3_scaled)

lemma normalizeLoop_done: "\<not> k < length ns \<Longrightarrow> normalizeLoop k ns = ns"
  by (subst normalizeLoop.simps) simp

lemma normalizeLoop_step:
  assumes "k + 2 < length ns"
  shows "normalizeLoop k ns =
     normalizeLoop (k + 3)
       (if hypot3 (ns ! k) (ns ! (k + 1)) (ns ! (k + 2)) > 1 / 1000000
        then ns[k := ns ! k / hypot3 (ns ! k) (ns ! (k + 1)) (ns ! (k + 2)),
                k + 1 := ns ! (k + 1) / hypot3 (ns ! k) (ns ! (k + 1)) (ns ! (k + 2)),
                k + 2 := ns ! (k + 2) / hypot3 (ns ! k) (ns ! (k + 1)) (ns ! (k + 2))]
        else ns[k := 0, k + 1 := 1, k + 2 := 0])"
  using assms by (subst normalizeLoop.simps) (simp add: Let_def)

lemma normalizeLoop_spec:
  assumes "length ns = 3 * m" and "k = 3 * q"
  shows "length (normalizeLoop k ns) = length ns
       \<and> (\<forall>i<k. normalizeLoop k ns ! i = ns ! i)
       \<and> (\<forall>v. q \<le> v \<and> v < m \<longrightarrow> unit_or_fallback (vec_at (normalizeLoop k ns) v))"
  using assms
proof (induction "m - q" arbitrary: q k ns)
  case 0
  then have "\<not> k < length ns" by simp
  then have "normalizeLoop k ns = ns" by (rule normalizeLoop_done)
  with 0 show ?case by auto
next
  case (Suc d)
  then have q: "q < m" by simp
  with Suc.prems have in_range: "k + 2 < length ns" by simp
  define l where "l = hypot3 (ns ! k) (ns ! (k + 1)) (ns ! (k + 2))"
  define ns' where "ns' = (if l > 1 / 1000000
        then ns[k := ns ! k / l, k + 1 := ns ! (k + 1) / l, k + 2 := ns ! (k + 2) / l]
        else ns[k := 0, k + 1 := 1, k + 2 := 0])"
  have step: "normalizeLoop k ns = normalizeLoop (k + 3) ns'"
    unfolding ns'_def l_def by (rule normalizeLoop_step [OF in_range])
  have len': "length ns' = length ns"
    by (simp add: ns'_def)
  have old: "\<And>i. i < k \<Longrightarrow> ns' ! i = ns ! i"
    by (simp add: ns'_def)
  have new: "unit_or_fallback (ns' ! k, ns' ! (k + 1), ns' ! (k + 2))"
  proof (cases "l > 1 / 1000000")
    case True
    then have "0 < l" by simp
    then have "hypot3 (ns ! k / l) (ns ! (k + 1) / l) (ns ! (k + 2) / l) = 1"
      unfolding l_def by (rule hypot3_normalized)
    with True in_range show ?thesis
      by (simp add: ns'_def unit_or_fallback_def vlen_def)
  next
    case False
    with in_range show ?thesis
      by (simp add: ns'_def unit_or_fallback_def)
  qed
  have IH: "length (normalizeLoop (k + 3) ns') = length ns'
       \<and> (\<forall>i<k + 3. normalizeLoop (k + 3) ns' ! i = ns' ! i)
       \<and> (\<forall>v. Suc q \<le> v \<and> v < m \<longrightarrow> unit_or_fallback (vec_at (normalizeLoop (k + 3) ns') v))"
    using Suc.hyps(2) Suc.prems len' by (intro Suc.hyps(1)) simp_all
  show ?case
  proof (intro conjI allI impI)
    show "length (normalizeLoop k ns) = length ns"
      using IH len' step by simp
    show "normalizeLoop k ns ! i = ns ! i" if "i < k" for i
      using IH old that step by simp
    show "unit_or_fallback (vec_at (normalizeLoop k ns) v)" if "q \<le> v \<and> v < m" for v
    proof (cases "v = q")
      case True
      have "vec_at (normalizeLoop k ns) v = (ns' ! k, ns' ! (k + 1), ns' ! (k + 2))"
        using IH True Suc.prems(2) step by (simp add: vec_at_def)
      with new show ?thesis by simp
    next
      case False
      with that IH step show ?thesis by simp
    qed
  qed
qed

lemma normalizeLoop_normals:
  assumes "length ns = 3 * m"
  shows "length (normalizeLoop 0 ns) = 3 * m
       \<and> (\<forall>v<m. unit_or_fallback (vec_at (normalizeLoop 0 ns) v))"
  using normalizeLoop_spec [OF assms, of 0 0] assms by simp

section \<open>The textured mesh\<close>

lemma concat_map_Nil [simp]: "concat (map (\<lambda>x. []) xs) = []"
  by (induction xs) simp_all

lemma texGrid_positions:
  "positions (texGrid uSeg vSeg h p) =
     concat (map (\<lambda>j. concat (map (\<lambda>i. vec_list (parabolicHummingTopVertex_tex
        (row_y h vSeg j) (col_beta uSeg i) h p)) [0..<Suc uSeg])) [0..<Suc vSeg])"
proof -
  have "positions (texGrid uSeg vSeg h p) =
     positions \<lparr>positions = [], normals = [], indices = [], tangents = [], texCoords = []\<rparr> @
     concat (map (\<lambda>j. concat (map (\<lambda>i. vec_list (parabolicHummingTopVertex_tex
        (row_y h vSeg j) (col_beta uSeg i) h p)) [0..<Suc uSeg])) [0..<Suc vSeg])"
    unfolding texGrid_def Let_def
    by (rule nested_field_push) (simp add: vec_list_def row_y_def col_beta_def split: prod.splits)
  then show ?thesis by simp
qed

lemma texGrid_normals:
  "normals (texGrid uSeg vSeg h p) =
     concat (map (\<lambda>j. concat (map (\<lambda>i. [0, 0, 0]) [0..<Suc uSeg])) [0..<Suc vSeg])"
proof -
  have "normals (texGrid uSeg vSeg h p) =
     normals \<lparr>positions = [], normals = [], indices = [], tangents = [], texCoords = []\<rparr> @
     concat (map (\<lambda>j. concat (map (\<lambda>i. [0, 0, 0]) [0..<Suc uSeg])) [0..<Suc vSeg])"
    unfolding texGrid_def Let_def
    by (rule nested_field_push) (simp split: prod.splits)
  then show ?thesis by simp
qed

lemma texGrid_tangents:
  "tangents (texGrid uSeg vSeg h p) =
     concat (map (\<lambda>j. concat (map (\<lambda>i. vec_list (spec_tangent
        (row_y h vSeg j) (col_beta uSeg i) h p)) [0..<Suc uSeg])) [0..<Suc vSeg])"
proof -
  have "tangents (texGrid uSeg vSeg h p) =
     tangents \<lparr>positions = [], normals = [], indices = [], tangents = [], texCoords = []\<rparr> @
     concat (map (\<lambda>j. concat (map (\<lambda>i. vec_list (spec_tangent
        (row_y h vSeg j) (col_beta uSeg i) h p)) [0..<Suc uSeg])) [0..<Suc vSeg])"
    unfolding texGrid_def Let_def
    by (rule nested_field_push)
      (simp add: vec_list_def row_y_def col_beta_def spec_tangent_def Let_def power2_eq_square
        split: prod.splits)
  then show ?thesis by simp
qed

lemma texGrid_texCoords:
  "texCoords (texGrid uSeg vSeg h p) =
     concat (map (\<lambda>j. concat (map (\<lambda>i. [real i / real uSeg, real j / real vSeg])
       [0..<Suc uSeg])) [0..<Suc vSeg])"
proof -
  have "texCoords (texGrid uSeg vSeg h p) =
     texCoords \<lparr>positions = [], normals = [], indices = [], tangents = [], texCoords = []\<rparr> @
     concat (map (\<lambda>j. concat (map (\<lambda>i. [real i / real uSeg, real j / real vSeg])
       [0..<Suc uSeg])) [0..<Suc vSeg])"
    unfolding texGrid_def Let_def
    by (rule nested_field_push) (simp split: prod.splits)
  then show ?thesis by simp
qed

lemma texGrid_indices: "indices (texGrid uSeg vSeg h p) = []"
proof -
  have "indices (texGrid uSeg vSeg h p) =
     indices \<lparr>positions = [], normals = [], indices = [], tangents = [], texCoords = []\<rparr> @
     concat (map (\<lambda>j. concat (map (\<lambda>i. []) [0..<Suc uSeg])) [0..<Suc vSeg])"
    unfolding texGrid_def Let_def
    by (rule nested_field_push) (simp split: prod.splits)
  then show ?thesis by simp
qed

lemma spec_accumulate_append:
  "length q1 mod 3 = 0 \<Longrightarrow>
   spec_accumulate ps (q1 @ q2) ns = spec_accumulate ps q2 (spec_accumulate ps q1 ns)"
  by (induction ps q1 ns rule: spec_accumulate.induct) simp_all

lemma add_triangles_Nil [simp]: "add_triangles [] s = s"
  by (simp add: add_triangles_def)

lemma add_triangles_append:
  "length q1 mod 3 = 0 \<Longrightarrow> add_triangles q2 (add_triangles q1 s) = add_triangles (q1 @ q2) s"
  by (simp add: add_triangles_def spec_accumulate_append)

lemma add_triangles_fields [simp]:
  "positions (add_triangles q s) = positions s"
  "length (normals (add_triangles q s)) = length (normals s)"
  "tangents (add_triangles q s) = tangents s"
  "texCoords (add_triangles q s) = texCoords s"
  "indices (add_triangles q s) = indices s @ q"
  by (simp_all add: add_triangles_def)

lemma three_bound: "x < n \<Longrightarrow> 3 * x + 2 < 3 * (n::nat)"
  by simp

lemma tex_quad_step:
  assumes "i < uSeg" and "j < vSeg"
    and "length (positions s) = 3 * (uSeg + 1) * (vSeg + 1)"
    and "length (normals s) = 3 * (uSeg + 1) * (vSeg + 1)"
  shows "texQuad (uSeg + 1) j i (Some s) = Some (add_triangles (spec_quad_triangles (uSeg + 1) i j) s)"
proof -
  define i0 where "i0 = j * (uSeg + 1) + i"
  define i1 where "i1 = i0 + 1"
  define i2 where "i2 = i0 + (uSeg + 1)"
  define i3 where "i3 = i2 + 1"
  have quad: "spec_quad_triangles (uSeg + 1) i j = [i0, i2, i1, i1, i2, i3]"
    by (simp add: spec_quad_triangles_def Let_def i0_def i1_def i2_def i3_def)
  have b: "3 * x + 2 < length (positions s) \<and> 3 * x + 2 < length (normals s)"
    if "x \<in> {i0, i1, i2, i3}" for x
  proof -
    from that have "x \<in> set (spec_quad_triangles (uSeg + 1) i j)"
      unfolding quad by auto
    then have "x < (uSeg + 1) * (vSeg + 1)"
      by (rule spec_quad_bound [OF assms(1,2)])
    then have "3 * x + 2 < 3 * ((uSeg + 1) * (vSeg + 1))"
      by (rule three_bound)
    then show ?thesis
      by (simp only: assms(3,4) mult.assoc)
  qed
  have f1: "addFace (positions s) (normals s) i0 i2 i1
      = Some (add_face (positions s) (normals s) i0 i2 i1)"
    using b [of i0] b [of i1] b [of i2] b [of i3] by (intro addFace_in_range) auto
  have f2: "addFace (positions s) (add_face (positions s) (normals s) i0 i2 i1) i1 i2 i3
      = Some (add_face (positions s) (add_face (positions s) (normals s) i0 i2 i1) i1 i2 i3)"
    using b [of i0] b [of i1] b [of i2] b [of i3] by (intro addFace_in_range) auto
  show ?thesis
    unfolding quad texQuad_def Let_def i0_def [symmetric] i1_def [symmetric] i2_def [symmetric] i3_def [symmetric]
    by (simp add: f1 f2 add_triangles_def)
qed

section \<open>The surface data\<close>

lemma length_concat_quads:
  "length (concat (map (\<lambda>i. spec_quad_triangles w i j) xs)) = 6 * length xs"
  by (rule length_concat_const) simp

lemma tex_row_step:
  assumes "j < vSeg"
    and "length (positions s) = 3 * (uSeg + 1) * (vSeg + 1)"
    and "length (normals s) = 3 * (uSeg + 1) * (vSeg + 1)"
  shows "for_below 0 uSeg (\<lambda>i r. texQuad (uSeg + 1) j i r) (Some s)
       = Some (add_triangles (concat (map (\<lambda>i. spec_quad_triangles (uSeg + 1) i j) [0..<uSeg])) s)"
proof (rule for_below_inv [where P = "\<lambda>k r. r = Some (add_triangles
          (concat (map (\<lambda>i. spec_quad_triangles (uSeg + 1) i j) [0..<k])) s)"])
  show "Some s = Some (add_triangles (concat (map (\<lambda>i. spec_quad_triangles (uSeg + 1) i j) [0..<0])) s)"
    by simp
  show "0 \<le> uSeg"
    by simp
next
  fix k t
  assume k: "k < uSeg"
    and t: "t = Some (add_triangles (concat (map (\<lambda>i. spec_quad_triangles (uSeg + 1) i j) [0..<k])) s)"
  define q where "q = concat (map (\<lambda>i. spec_quad_triangles (uSeg + 1) i j) [0..<k])"
  have "length q mod 3 = 0"
    by (simp add: q_def length_concat_quads)
  then have "add_triangles (spec_quad_triangles (uSeg + 1) k j) (add_triangles q s)
      = add_triangles (q @ spec_quad_triangles (uSeg + 1) k j) s"
    by (rule add_triangles_append)
  moreover have "texQuad (uSeg + 1) j k (Some (add_triangles q s))
      = Some (add_triangles (spec_quad_triangles (uSeg + 1) k j) (add_triangles q s))"
    using k assms by (intro tex_quad_step) simp_all
  ultimately show "texQuad (uSeg + 1) j k t
      = Some (add_triangles (concat (map (\<lambda>i. spec_quad_triangles (uSeg + 1) i j) [0..<Suc k])) s)"
    by (simp add: t q_def)
qed

lemma texTriangles_spec:
  assumes "length (positions s) = 3 * (uSeg + 1) * (vSeg + 1)"
    and "length (normals s) = 3 * (uSeg + 1) * (vSeg + 1)"
  shows "texTriangles uSeg vSeg s = Some (add_triangles (buildIndices uSeg vSeg) s)"
  unfolding texTriangles_def Let_def buildIndices_quads
proof (rule for_below_inv [where P = "\<lambda>k r. r = Some (add_triangles
          (concat (map (\<lambda>j. concat (map (\<lambda>i. spec_quad_triangles (uSeg + 1) i j) [0..<uSeg])) [0..<k])) s)"])
  show "Some s = Some (add_triangles
          (concat (map (\<lambda>j. concat (map (\<lambda>i. spec_quad_triangles (uSeg + 1) i j) [0..<uSeg])) [0..<0])) s)"
    by simp
  show "0 \<le> vSeg"
    by simp
next
  fix k t
  assume k: "k < vSeg"
    and t: "t = Some (add_triangles
          (concat (map (\<lambda>j. concat (map (\<lambda>i. spec_quad_triangles (uSeg + 1) i j) [0..<uSeg])) [0..<k])) s)"
  define q where "q = concat (map (\<lambda>j. concat (map (\<lambda>i. spec_quad_triangles (uSeg + 1) i j) [0..<uSeg])) [0..<k])"
  define row where "row = concat (map (\<lambda>i. spec_quad_triangles (uSeg + 1) i k) [0..<uSeg])"
  have "length q = (6 * uSeg) * k"
    unfolding q_def by (subst length_concat_const [where c = "6 * uSeg"]) (simp_all add: length_concat_quads)
  then have "length q mod 3 = 0"
    by simp
  then have "add_triangles row (add_triangles q s) = add_triangles (q @ row) s"
    by (rule add_triangles_append)
  moreover have "for_below 0 uSeg (\<lambda>i r. texQuad (uSeg + 1) k i r) (Some (add_triangles q s))
      = Some (add_triangles row (add_triangles q s))"
    unfolding row_def using k assms by (intro tex_row_step) simp_all
  ultimately show "for_below 0 uSeg (\<lambda>i r. texQuad (uSeg + 1) k i r) t
      = Some (add_triangles
          (concat (map (\<lambda>j. concat (map (\<lambda>i. spec_quad_triangles (uSeg + 1) i j) [0..<uSeg])) [0..<Suc k])) s)"
    by (simp add: t q_def row_def)
qed

lemma length_texGrid:
  "length (positions (texGrid uSeg vSeg h p)) = 3 * (uSeg + 1) * (vSeg + 1)"
  "length (normals (texGrid uSeg vSeg h p)) = 3 * (uSeg + 1) * (vSeg + 1)"
  "length (tangents (texGrid uSeg vSeg h p)) = 3 * (uSeg + 1) * (vSeg + 1)"
  by (simp_all add: texGrid_positions texGrid_normals texGrid_tangents length_concat_const
      algebra_simps del: upt_Suc)

lemma positions_tex_flat:
  "positions (texGrid uSeg vSeg h p) = positions (buildGrid uSeg vSeg h p)"
  by (simp add: texGrid_positions buildGrid_positions parabolicHummingTopVertex_tex_def
      parabolicHummingTopVertex_flat_def del: upt_Suc)

lemma normals_tex_flat:
  "normals (texGrid uSeg vSeg h p) = normals (buildGrid uSeg vSeg h p)"
  by (simp add: texGrid_normals buildGrid_normals del: upt_Suc)

lemma buildIndices_in_range:
  assumes "n = 3 * (uSeg + 1) * (vSeg + 1)"
  shows "\<forall>x \<in> set (buildIndices uSeg vSeg). 3 * x + 2 < n \<and> 3 * x + 2 < n"
proof
  fix x assume "x \<in> set (buildIndices uSeg vSeg)"
  then have "x < (uSeg + 1) * (vSeg + 1)"
    by (rule buildIndices_bound)
  then have "3 * x + 2 < 3 * ((uSeg + 1) * (vSeg + 1))"
    by (rule three_bound)
  then show "3 * x + 2 < n \<and> 3 * x + 2 < n"
    by (simp only: assms mult.assoc)
qed

lemma CreateSurfaceData_flat_eq:
  "CreateSurfaceData_flat uArg vArg =
     Some \<lparr>positions = positions (buildGrid (default_40 uArg) (default_40 vArg) 1 (1 / 2)),
           normals = normalizeLoop 0 (spec_accumulate
             (positions (buildGrid (default_40 uArg) (default_40 vArg) 1 (1 / 2)))
             (buildIndices (default_40 uArg) (default_40 vArg))
             (normals (buildGrid (default_40 uArg) (default_40 vArg) 1 (1 / 2)))),
           indices = buildIndices (default_40 uArg) (default_40 vArg)\<rparr>"
proof -
  define u where "u = default_40 uArg"
  define v where "v = default_40 vArg"
  have "length (buildIndices u v) mod 3 = 0"
    by (simp add: length_buildIndices)
  moreover have "\<forall>x \<in> set (buildIndices u v).
      3 * x + 2 < length (positions (buildGrid u v 1 (1 / 2))) \<and>
      3 * x + 2 < length (normals (buildGrid u v 1 (1 / 2)))"
    using buildIndices_in_range [OF refl, of u v]
    by (simp only: length_buildGrid_positions length_buildGrid_normals)
  ultimately have "accumulateNormalsFromIndices (positions (buildGrid u v 1 (1 / 2)))
      (normals (buildGrid u v 1 (1 / 2))) (buildIndices u v)
    = Some (spec_accumulate (positions (buildGrid u v 1 (1 / 2))) (buildIndices u v)
        (normals (buildGrid u v 1 (1 / 2))))"
    by (rule accumulate_in_range)
  then show ?thesis
    unfolding CreateSurfaceData_flat_def Let_def u_def [symmetric]
      v_def [symmetric]
    by (simp add: normalizeNormals_def)
qed

lemma CreateSurfaceData_tex_eq:
  "CreateSurfaceData_tex uArg vArg =
     Some \<lparr>positions = positions (texGrid (or_40 uArg) (or_40 vArg) 1 (1 / 2)),
           normals = normalizeLoop 0 (spec_accumulate
             (positions (texGrid (or_40 uArg) (or_40 vArg) 1 (1 / 2)))
             (buildIndices (or_40 uArg) (or_40 vArg))
             (normals (texGrid (or_40 uArg) (or_40 vArg) 1 (1 / 2)))),
           indices = buildIndices (or_40 uArg) (or_40 vArg),
           tangents = tangents (texGrid (or_40 uArg) (or_40 vArg) 1 (1 / 2)),
           texCoords = texCoords (texGrid (or_40 uArg) (or_40 vArg) 1 (1 / 2))\<rparr>"
proof -
  define u where "u = or_40 uArg"
  define v where "v = or_40 vArg"
  have "texTriangles u v (texGrid u v 1 (1 / 2))
      = Some (add_triangles (buildIndices u v) (texGrid u v 1 (1 / 2)))"
    by (rule texTriangles_spec) (rule length_texGrid)+
  then show ?thesis
    unfolding CreateSurfaceData_tex_def Let_def u_def [symmetric]
      v_def [symmetric]
    by (simp add: add_triangles_def texGrid_indices)
qed

lemma default_simps [simp]:
  "default_40 Undefined = 40" "default_40 (Num n) = n"
  "or_40 Undefined = 40" "or_40 (Num 0) = 40" "0 < n \<Longrightarrow> or_40 (Num n) = n"
  by (simp_all add: default_40_def or_40_def)

text \<open>
  C2. For \<open>uSegments \<ge> 1\<close> and \<open>vSegments \<ge> 1\<close>, the solid-mode mesh builder gives
  \<open>(uSegments + 1) (vSegments + 1)\<close> vertices and \<open>2 uSegments vSegments\<close> triangles: the
  array of positions has \<open>3 (uSegments + 1) (vSegments + 1)\<close> numbers and the array of indices
  \<open>6 uSegments vSegments\<close>, in \<open>buildGrid\<close> and \<open>buildIndices\<close> and in the mesh that
  \<open>CreateSurfaceData\<close> returns, flat-shaded or textured. With 4 and 2 segments these are
  15 vertices and 16 triangles.
\<close>

theorem solid_mesh_counts:
  assumes "1 \<le> uSeg" and "1 \<le> vSeg"
  shows "length (positions (buildGrid uSeg vSeg h p)) = 3 * (uSeg + 1) * (vSeg + 1)
       \<and> length (buildIndices uSeg vSeg) = 6 * uSeg * vSeg
       \<and> (\<exists>m. CreateSurfaceData_flat (Num uSeg) (Num vSeg) = Some m
              \<and> length (positions m) = 3 * (uSeg + 1) * (vSeg + 1)
              \<and> length (indices m) = 6 * uSeg * vSeg)
       \<and> (\<exists>m. CreateSurfaceData_tex (Num uSeg) (Num vSeg) = Some m
              \<and> length (positions m) = 3 * (uSeg + 1) * (vSeg + 1)
              \<and> length (indices m) = 6 * uSeg * vSeg)"
proof (intro conjI)
  show "length (positions (buildGrid uSeg vSeg h p)) = 3 * (uSeg + 1) * (vSeg + 1)"
    by (rule length_buildGrid_positions)
  show "length (buildIndices uSeg vSeg) = 6 * uSeg * vSeg"
    by (rule length_buildIndices)
  show "\<exists>m. CreateSurfaceData_flat (Num uSeg) (Num vSeg) = Some m
          \<and> length (positions m) = 3 * (uSeg + 1) * (vSeg + 1)
          \<and> length (indices m) = 6 * uSeg * vSeg"
    by (simp add: CreateSurfaceData_flat_eq length_buildGrid_positions length_buildIndices)
  show "\<exists>m. CreateSurfaceData_tex (Num uSeg) (Num vSeg) = Some m
          \<and> length (positions m) = 3 * (uSeg + 1) * (vSeg + 1)
          \<and> length (indices m) = 6 * uSeg * vSeg"
    using assms by (simp add: CreateSurfaceData_tex_eq length_texGrid length_buildIndices)
qed

theorem solid_mesh_counts_witness:
  "(1::nat) \<le> 4 \<and> (1::nat) \<le> 2
   \<and> length (positions (buildGrid 4 2 1 (1 / 2))) = 3 * 15
   \<and> length (buildIndices 4 2) = 3 * 16
   \<and> CreateSurfaceData_flat (Num 4) (Num 2) \<noteq> None
   \<and> length (positions (the (CreateSurfaceData_flat (Num 4) (Num 2)))) = 3 * 15
   \<and> length (indices (the (CreateSurfaceData_flat (Num 4) (Num 2)))) = 3 * 16
   \<and> CreateSurfaceData_tex (Num 4) (Num 2) \<noteq> None
   \<and> length (positions (the (CreateSurfaceData_tex (Num 4) (Num 2)))) = 3 * 15
   \<and> length (indices (the (CreateSurfaceData_tex (Num 4) (Num 2)))) = 3 * 16"
  using solid_mesh_counts [of 4 2 1 "1 / 2"] by auto

text \<open>
  C3. For \<open>uSegments \<ge> 1\<close> and \<open>vSegments \<ge> 1\<close>, the index list is, row after row of quads
  and quad after quad in a row, the two triangles \<open>(i0, i2, i1)\<close> and \<open>(i1, i2, i3)\<close> of the
  quad \<open>(i, j)\<close>, in that order, with \<open>i0 = j rowWidth + i\<close>, \<open>i1 = i0 + 1\<close>,
  \<open>i2 = i0 + rowWidth\<close>, \<open>i3 = i2 + 1\<close> and \<open>rowWidth = uSegments + 1\<close>, and nothing else;
  every index is less than the number of vertices \<open>(uSegments + 1) (vSegments + 1)\<close>. The
  flat-shaded and the textured \<open>CreateSurfaceData\<close> both return this list.
\<close>

theorem triangle_index_list:
  assumes "1 \<le> uSeg" and "1 \<le> vSeg"
  shows "buildIndices uSeg vSeg =
           concat (map (\<lambda>j. concat (map (\<lambda>i. spec_quad_triangles (uSeg + 1) i j) [0..<uSeg]))
             [0..<vSeg])
       \<and> (\<forall>x \<in> set (buildIndices uSeg vSeg). x < (uSeg + 1) * (vSeg + 1))
       \<and> (\<exists>m. CreateSurfaceData_flat (Num uSeg) (Num vSeg) = Some m
              \<and> indices m = buildIndices uSeg vSeg)
       \<and> (\<exists>m. CreateSurfaceData_tex (Num uSeg) (Num vSeg) = Some m
              \<and> indices m = buildIndices uSeg vSeg)"
proof (intro conjI ballI)
  show "buildIndices uSeg vSeg =
      concat (map (\<lambda>j. concat (map (\<lambda>i. spec_quad_triangles (uSeg + 1) i j) [0..<uSeg])) [0..<vSeg])"
    by (rule buildIndices_quads)
  show "x < (uSeg + 1) * (vSeg + 1)" if "x \<in> set (buildIndices uSeg vSeg)" for x
    using that by (rule buildIndices_bound)
  show "\<exists>m. CreateSurfaceData_flat (Num uSeg) (Num vSeg) = Some m \<and> indices m = buildIndices uSeg vSeg"
    by (simp add: CreateSurfaceData_flat_eq)
  show "\<exists>m. CreateSurfaceData_tex (Num uSeg) (Num vSeg) = Some m \<and> indices m = buildIndices uSeg vSeg"
    using assms by (simp add: CreateSurfaceData_tex_eq)
qed

lemma upt_4: "[0..<4] = [0, 1, 2, 3]"
  by (simp add: upt_conv_Cons)

lemma upt_2: "[0..<2] = [0, 1]"
  by (simp add: upt_conv_Cons)

theorem triangle_index_list_witness:
  "(1::nat) \<le> 4 \<and> (1::nat) \<le> 2
   \<and> buildIndices 4 2 =
       [0, 5, 1, 1, 5, 6,  1, 6, 2, 2, 6, 7,  2, 7, 3, 3, 7, 8,  3, 8, 4, 4, 8, 9,
        5, 10, 6, 6, 10, 11,  6, 11, 7, 7, 11, 12,  7, 12, 8, 8, 12, 13,  8, 13, 9, 9, 13, 14]
   \<and> list_all (\<lambda>x. x < 15) (buildIndices 4 2)
   \<and> map_option indices (CreateSurfaceData_flat (Num 4) (Num 2)) = Some (buildIndices 4 2)
   \<and> map_option indices (CreateSurfaceData_tex (Num 4) (Num 2)) = Some (buildIndices 4 2)"
proof -
  have "concat (map (\<lambda>j. concat (map (\<lambda>i. spec_quad_triangles (4 + 1) i j) [0..<4])) [0..<2]) =
       [0, 5, 1, 1, 5, 6,  1, 6, 2, 2, 6, 7,  2, 7, 3, 3, 7, 8,  3, 8, 4, 4, 8, 9,
        5, 10, 6, 6, 10, 11,  6, 11, 7, 7, 11, 12,  7, 12, 8, 8, 12, 13,  8, 13, 9, 9, 13, 14]"
    unfolding upt_4 upt_2 by (simp add: spec_quad_triangles_def Let_def)
  with triangle_index_list [of 4 2] show ?thesis
    by (auto simp: list_all_iff)
qed

text \<open>
  C1. For \<open>uSegments \<ge> 1\<close> and \<open>vSegments \<ge> 1\<close>, the geometry pass (accumulation of the
  face normals, then normalisation) returns a mesh, and the normal of every vertex of it has
  a Euclidean length within \<open>1e-4\<close> of 1, or is the fallback \<open>(0, 1, 0)\<close>; in the
  flat-shaded and in the textured variant. (In exact arithmetic the length is 1.)
\<close>

theorem normals_unit_or_fallback:
  assumes "1 \<le> uSeg" and "1 \<le> vSeg"
  shows "(\<exists>m. CreateSurfaceData_flat (Num uSeg) (Num vSeg) = Some m
              \<and> length (normals m) = 3 * ((uSeg + 1) * (vSeg + 1))
              \<and> (\<forall>k < (uSeg + 1) * (vSeg + 1). unit_or_fallback (vec_at (normals m) k)))
       \<and> (\<exists>m. CreateSurfaceData_tex (Num uSeg) (Num vSeg) = Some m
              \<and> length (normals m) = 3 * ((uSeg + 1) * (vSeg + 1))
              \<and> (\<forall>k < (uSeg + 1) * (vSeg + 1). unit_or_fallback (vec_at (normals m) k)))"
proof -
  have "length (normalizeLoop 0 ns) = 3 * ((uSeg + 1) * (vSeg + 1))
      \<and> (\<forall>k < (uSeg + 1) * (vSeg + 1). unit_or_fallback (vec_at (normalizeLoop 0 ns) k))"
    if "length ns = 3 * (uSeg + 1) * (vSeg + 1)" for ns
    using that by (intro normalizeLoop_normals) (simp only: mult.assoc)
  then show ?thesis
    using assms
    by (simp add: CreateSurfaceData_flat_eq CreateSurfaceData_tex_eq length_buildGrid_normals
        length_texGrid)
qed

theorem normals_unit_or_fallback_witness:
  "(1::nat) \<le> 4 \<and> (1::nat) \<le> 2
   \<and> CreateSurfaceData_flat (Num 4) (Num 2) \<noteq> None
   \<and> length (normals (the (CreateSurfaceData_flat (Num 4) (Num 2)))) = 45
   \<and> unit_or_fallback (vec_at (normals (the (CreateSurfaceData_flat (Num 4) (Num 2)))) 0)
   \<and> unit_or_fallback (vec_at (normals (the (CreateSurfaceData_flat (Num 4) (Num 2)))) 7)
   \<and> CreateSurfaceData_tex (Num 4) (Num 2) \<noteq> None
   \<and> length (normals (the (CreateSurfaceData_tex (Num 4) (Num 2)))) = 45
   \<and> unit_or_fallback (vec_at (normals (the (CreateSurfaceData_tex (Num 4) (Num 2)))) 0)
   \<and> unit_or_fallback (vec_at (normals (the (CreateSurfaceData_tex (Num 4) (Num 2)))) 7)"
  using normals_unit_or_fallback [of 4 2] by auto

text \<open>
  C10. The textured \<open>CreateSurfaceData\<close> replaces a falsy argument by 40:
  \<open>CreateSurfaceData(0, 0)\<close> returns the mesh of \<open>CreateSurfaceData(40, 40)\<close>, with its
  \<open>41 \<cdot> 41\<close> vertices and \<open>2 \<cdot> 40 \<cdot> 40\<close> triangles, and so does a call without
  arguments. The defaults of the flat-shaded variant replace left-out arguments only:
  without arguments it returns the mesh of \<open>(40, 40)\<close>, and \<open>CreateSurfaceData(0, 0)\<close>
  returns another mesh, of one vertex and no triangle.
\<close>

theorem textured_defaults:
  "CreateSurfaceData_tex (Num 0) (Num 0) = CreateSurfaceData_tex (Num 40) (Num 40)
   \<and> CreateSurfaceData_tex Undefined Undefined = CreateSurfaceData_tex (Num 40) (Num 40)
   \<and> CreateSurfaceData_tex (Num 0) (Num 0) \<noteq> None
   \<and> length (positions (the (CreateSurfaceData_tex (Num 0) (Num 0)))) = 3 * (41 * 41)
   \<and> length (indices (the (CreateSurfaceData_tex (Num 0) (Num 0)))) = 3 * (2 * 40 * 40)
   \<and> CreateSurfaceData_flat Undefined Undefined = CreateSurfaceData_flat (Num 40) (Num 40)
   \<and> CreateSurfaceData_flat (Num 0) (Num 0) \<noteq> CreateSurfaceData_flat (Num 40) (Num 40)
   \<and> length (positions (the (CreateSurfaceData_flat (Num 0) (Num 0)))) = 3
   \<and> indices (the (CreateSurfaceData_flat (Num 0) (Num 0))) = []
   \<and> length (indices (the (CreateSurfaceData_flat (Num 40) (Num 40)))) = 3 * (2 * 40 * 40)"
proof -
  have a: "CreateSurfaceData_tex (Num 0) (Num 0) = CreateSurfaceData_tex (Num 40) (Num 40)"
    "CreateSurfaceData_tex Undefined Undefined = CreateSurfaceData_tex (Num 40) (Num 40)"
    "CreateSurfaceData_flat Undefined Undefined = CreateSurfaceData_flat (Num 40) (Num 40)"
    by (simp_all add: CreateSurfaceData_tex_def CreateSurfaceData_flat_def)
  have b: "CreateSurfaceData_tex (Num 0) (Num 0) \<noteq> None"
    "length (positions (the (CreateSurfaceData_tex (Num 0) (Num 0)))) = 3 * (41 * 41)"
    "length (indices (the (CreateSurfaceData_tex (Num 0) (Num 0)))) = 3 * (2 * 40 * 40)"
    by (simp_all add: CreateSurfaceData_tex_eq length_texGrid length_buildIndices)
  have c: "length (positions (the (CreateSurfaceData_flat (Num 0) (Num 0)))) = 3"
    "length (indices (the (CreateSurfaceData_flat (Num 0) (Num 0)))) = 0"
    "length (indices (the (CreateSurfaceData_flat (Num 40) (Num 40)))) = 3 * (2 * 40 * 40)"
    by (simp_all add: CreateSurfaceData_flat_eq length_buildGrid_positions length_buildIndices)
  from c(2,3) have "CreateSurfaceData_flat (Num 0) (Num 0) \<noteq> CreateSurfaceData_flat (Num 40) (Num 40)"
    by auto
  with a b c show ?thesis
    by simp
qed

section \<open>The contribution of a face\<close>

lemma vec_at_add_at:
  assumes "3 * i + 2 < length ns"
  shows "vec_at (add_at ns i n) k = (if k = i then vadd (vec_at ns k) n else vec_at ns k)"
proof (cases n)
  case (fields nx ny nz)
  have "3 * k \<noteq> 3 * i + 1" "3 * k \<noteq> 3 * i + 2" "3 * k + 1 \<noteq> 3 * i" "3 * k + 1 \<noteq> 3 * i + 2"
    "3 * k + 2 \<noteq> 3 * i" "3 * k + 2 \<noteq> 3 * i + 1"
    by presburger+
  with assms fields show ?thesis
    by (simp add: add_at_def vec_at_def vadd_def nth_list_update)
qed

lemma vec_at_add_face:
  assumes "3 * i0 + 2 < length ns" "3 * i1 + 2 < length ns" "3 * i2 + 2 < length ns"
    and "distinct [i0, i1, i2]"
  shows "vec_at (add_face ps ns i0 i1 i2) i0
           = vadd (vec_at ns i0) (face_contribution (vec_at ps i0) (vec_at ps i1) (vec_at ps i2))"
    and "vec_at (add_face ps ns i0 i1 i2) i1
           = vadd (vec_at ns i1) (face_contribution (vec_at ps i0) (vec_at ps i1) (vec_at ps i2))"
    and "vec_at (add_face ps ns i0 i1 i2) i2
           = vadd (vec_at ns i2) (face_contribution (vec_at ps i0) (vec_at ps i1) (vec_at ps i2))"
  using assms by (auto simp: add_face_def Let_def vec_at_add_at)

lemma vlen_normalized:
  assumes "0 < vlen n"
  shows "vlen (normalized n) = 1"
proof (cases n)
  case (fields a b c)
  with assms have "0 < hypot3 a b c"
    by (simp add: vlen_def)
  then have "hypot3 (a / hypot3 a b c) (b / hypot3 a b c) (c / hypot3 a b c) = 1"
    by (rule hypot3_normalized)
  with fields show ?thesis
    by (simp add: normalized_def vlen_def)
qed

text \<open>
  C5, as amended. During the accumulation of the normals (the loop of the flat-shaded
  variant, \<open>addFace\<close> of the textured one), a triangle whose edge cross product is longer
  than \<open>1e-6\<close> adds its normalised face normal, of length 1, to each of its three vertices;
  a triangle whose edge cross product has a length of at most \<open>1e-6\<close> adds that cross
  product as it is, not normalised, to each of its three vertices.
\<close>

theorem facet_contribution:
  assumes "length ixs mod 3 = 0"
    and "\<forall>x \<in> set ixs. 3 * x + 2 < length ps \<and> 3 * x + 2 < length ns"
  shows "accumulateNormalsFromIndices ps ns ixs = Some (spec_accumulate ps ixs ns)
       \<and> (\<forall>i0 i1 i2. {i0, i1, i2} \<subseteq> set ixs \<longrightarrow>
            addFace ps ns i0 i1 i2 = Some (add_face ps ns i0 i1 i2))
       \<and> (\<forall>i0 i1 i2. {i0, i1, i2} \<subseteq> set ixs \<and> distinct [i0, i1, i2] \<longrightarrow>
            (\<forall>k \<in> {i0, i1, i2}. vec_at (add_face ps ns i0 i1 i2) k
               = vadd (vec_at ns k) (face_contribution (vec_at ps i0) (vec_at ps i1) (vec_at ps i2))))
       \<and> (\<forall>a b c. vlen (edge_cross a b c) > 1 / 1000000 \<longrightarrow>
            face_contribution a b c = normalized (edge_cross a b c)
            \<and> vlen (face_contribution a b c) = 1)
       \<and> (\<forall>a b c. vlen (edge_cross a b c) \<le> 1 / 1000000 \<longrightarrow>
            face_contribution a b c = edge_cross a b c)"
proof (intro conjI allI impI)
  show "accumulateNormalsFromIndices ps ns ixs = Some (spec_accumulate ps ixs ns)"
    using assms by (rule accumulate_in_range)
next
  fix i0 i1 i2 assume "{i0, i1, i2} \<subseteq> set ixs"
  with assms(2) show "addFace ps ns i0 i1 i2 = Some (add_face ps ns i0 i1 i2)"
    by (intro addFace_in_range) auto
next
  fix i0 i1 i2 assume "{i0, i1, i2} \<subseteq> set ixs \<and> distinct [i0, i1, i2]"
  with assms(2) have "3 * i0 + 2 < length ns" "3 * i1 + 2 < length ns" "3 * i2 + 2 < length ns"
    "distinct [i0, i1, i2]"
    by auto
  from vec_at_add_face [OF this]
  show "\<forall>k \<in> {i0, i1, i2}. vec_at (add_face ps ns i0 i1 i2) k
      = vadd (vec_at ns k) (face_contribution (vec_at ps i0) (vec_at ps i1) (vec_at ps i2))"
    by simp
next
  fix a b c :: vec3 assume big: "vlen (edge_cross a b c) > 1 / 1000000"
  then show "face_contribution a b c = normalized (edge_cross a b c)"
    by (simp add: face_contribution_def)
  from big have "0 < vlen (edge_cross a b c)"
    by simp
  then have "vlen (normalized (edge_cross a b c)) = 1"
    by (rule vlen_normalized)
  with big show "vlen (face_contribution a b c) = 1"
    by (simp add: face_contribution_def)
next
  fix a b c :: vec3 assume "vlen (edge_cross a b c) \<le> 1 / 1000000"
  then show "face_contribution a b c = edge_cross a b c"
    by (simp add: face_contribution_def)
qed

lemma contribution_unit_triangle:
  "face_contribution (0, 0, 0) (1, 0, 0) (0, 1, 0) = (0, 0, 1)"
  by (simp add: face_contribution_def edge_cross_def vlen_def hypot3_def normalized_def)

lemma contribution_small_triangle:
  "edge_cross (0, 0, 0) (1 / 1000, 0, 0) (0, 1 / 2000, 0) = (0, 0, 1 / 2000000)"
  "vlen (0, 0, 1 / 2000000) = 1 / 2000000"
  "face_contribution (0, 0, 0) (1 / 1000, 0, 0) (0, 1 / 2000, 0) = (0, 0, 1 / 2000000)"
  by (simp_all add: face_contribution_def edge_cross_def vlen_def hypot3_def normalized_def
      real_sqrt_divide)

theorem facet_contribution_witness:
  "length [0, 1, 2 :: nat] mod 3 = 0
   \<and> list_all (\<lambda>x. 3 * x + 2 < 9) [0, 1, 2 :: nat]
   \<and> accumulateNormalsFromIndices [0, 0, 0, 1, 0, 0, 0, 1, 0] [0, 0, 0, 0, 0, 0, 0, 0, 0] [0, 1, 2]
       = Some [0, 0, 1, 0, 0, 1, 0, 0, 1]
   \<and> addFace [0, 0, 0, 1, 0, 0, 0, 1, 0] [0, 0, 0, 0, 0, 0, 0, 0, 0] 0 1 2
       = Some [0, 0, 1, 0, 0, 1, 0, 0, 1]
   \<and> vlen (edge_cross (0, 0, 0) (1, 0, 0) (0, 1, 0)) > 1 / 1000000
   \<and> vlen (face_contribution (0, 0, 0) (1, 0, 0) (0, 1, 0)) = 1"
proof -
  have r: "\<forall>x \<in> set [0, 1, 2 :: nat]. 3 * x + 2 < length [0, 0, 0, 1, 0, 0, 0, 1, 0 :: real]
      \<and> 3 * x + 2 < length [0, 0, 0, 0, 0, 0, 0, 0, 0 :: real]"
    by simp
  have l: "length [0, 1, 2 :: nat] mod 3 = 0"
    by simp
  have big: "vlen (edge_cross (0, 0, 0) (1, 0, 0) (0, 1, 0)) > 1 / 1000000"
    by (simp add: edge_cross_def vlen_def hypot3_def)
  have v: "add_face [0, 0, 0, 1, 0, 0, 0, 1, 0] [0, 0, 0, 0, 0, 0, 0, 0, 0] 0 1 2
      = [0, 0, 1, 0, 0, 1, 0, 0, 1]"
    by (simp add: add_face_def vec_at_def contribution_unit_triangle add_at_def)
  note inst = facet_contribution [OF l r]
  have sa: "spec_accumulate [0, 0, 0, 1, 0, 0, 0, 1, 0] [0, 1, 2] [0, 0, 0, 0, 0, 0, 0, 0, 0]
      = [0, 0, 1, 0, 0, 1, 0, 0, 1]"
    by (simp only: spec_accumulate.simps v)
  from inst have "accumulateNormalsFromIndices [0, 0, 0, 1, 0, 0, 0, 1, 0] [0, 0, 0, 0, 0, 0, 0, 0, 0] [0, 1, 2]
      = Some [0, 0, 1, 0, 0, 1, 0, 0, 1]"
    by (simp only: sa)
  moreover from inst have "addFace [0, 0, 0, 1, 0, 0, 0, 1, 0] [0, 0, 0, 0, 0, 0, 0, 0, 0] 0 1 2
      = Some (add_face [0, 0, 0, 1, 0, 0, 0, 1, 0] [0, 0, 0, 0, 0, 0, 0, 0, 0] 0 1 2)"
    by simp
  moreover from inst big have "vlen (face_contribution (0, 0, 0) (1, 0, 0) (0, 1, 0)) = 1"
    by blast
  ultimately show ?thesis
    using big by (simp only: v) simp
qed

text \<open>
  The claim C5 as it was stated has a degenerate triangle add exactly the zero vector. The
  triangle \<open>(0, 0, 0)\<close>, \<open>(0.001, 0, 0)\<close>, \<open>(0, 0.0005, 0)\<close> has a cross product of length
  \<open>5e-7\<close>, below the threshold, and adds \<open>(0, 0, 5e-7)\<close> to each of its vertices.
\<close>

theorem degenerate_face_counterexample:
  "face_cross_len [0, 0, 0, 1 / 1000, 0, 0, 0, 1 / 2000, 0] (0, 1, 2) = 1 / 2000000
   \<and> (1 / 2000000 :: real) \<le> 1 / 1000000
   \<and> accumulateNormalsFromIndices [0, 0, 0, 1 / 1000, 0, 0, 0, 1 / 2000, 0]
        [0, 0, 0, 0, 0, 0, 0, 0, 0] [0, 1, 2]
       = Some [0, 0, 1 / 2000000, 0, 0, 1 / 2000000, 0, 0, 1 / 2000000]
   \<and> addFace [0, 0, 0, 1 / 1000, 0, 0, 0, 1 / 2000, 0] [0, 0, 0, 0, 0, 0, 0, 0, 0] 0 1 2
       = Some [0, 0, 1 / 2000000, 0, 0, 1 / 2000000, 0, 0, 1 / 2000000]"
proof -
  have v: "add_face [0, 0, 0, 1 / 1000, 0, 0, 0, 1 / 2000, 0] [0, 0, 0, 0, 0, 0, 0, 0, 0] 0 1 2
      = [0, 0, 1 / 2000000, 0, 0, 1 / 2000000, 0, 0, 1 / 2000000]"
    by (simp add: add_face_def vec_at_def contribution_small_triangle add_at_def)
  have "addFace [0, 0, 0, 1 / 1000, 0, 0, 0, 1 / 2000, 0] [0, 0, 0, 0, 0, 0, 0, 0, 0] 0 1 2
      = Some (add_face [0, 0, 0, 1 / 1000, 0, 0, 0, 1 / 2000, 0] [0, 0, 0, 0, 0, 0, 0, 0, 0] 0 1 2)"
    by (rule addFace_in_range) simp_all
  moreover have "accumulateNormalsFromIndices [0, 0, 0, 1 / 1000, 0, 0, 0, 1 / 2000, 0]
        [0, 0, 0, 0, 0, 0, 0, 0, 0] [0, 1, 2]
      = Some (spec_accumulate [0, 0, 0, 1 / 1000, 0, 0, 0, 1 / 2000, 0] [0, 1, 2]
          [0, 0, 0, 0, 0, 0, 0, 0, 0])"
    by (rule accumulate_in_range) simp_all
  moreover have "face_cross_len [0, 0, 0, 1 / 1000, 0, 0, 0, 1 / 2000, 0] (0, 1, 2) = 1 / 2000000"
    by (simp add: face_cross_len_def vec_at_def contribution_small_triangle)
  ultimately show ?thesis
    by (simp only: v spec_accumulate.simps) simp
qed

section \<open>Tangents\<close>

lemma nth_concat_blocks:
  assumes "\<forall>x \<in> set xs. length (f x) = c" and "k < length xs" and "r < c"
  shows "concat (map f xs) ! (k * c + r) = f (xs ! k) ! r"
  using assms
proof (induction xs arbitrary: k)
  case Nil
  then show ?case by simp
next
  case (Cons x xs)
  show ?case
  proof (cases k)
    case 0
    with Cons.prems show ?thesis
      by (simp add: nth_append)
  next
    case (Suc k')
    with Cons.prems have "concat (map f xs) ! (k' * c + r) = f (xs ! k') ! r"
      by (intro Cons.IH) simp_all
    with Suc Cons.prems show ?thesis
      by (simp add: nth_append)
  qed
qed

lemma nth_grid:
  assumes "i \<le> u" and "j \<le> v" and "c < 3"
  shows "concat (map (\<lambda>j. concat (map (\<lambda>i. vec_list (f j i)) [0..<Suc u])) [0..<Suc v])
           ! (3 * (j * (u + 1) + i) + c) = vec_list (f j i) ! c"
proof -
  have idx: "3 * (j * (u + 1) + i) + c = j * (3 * (u + 1)) + (3 * i + c)"
    by (simp add: algebra_simps)
  have "concat (map (\<lambda>j. concat (map (\<lambda>i. vec_list (f j i)) [0..<Suc u])) [0..<Suc v])
           ! (j * (3 * (u + 1)) + (3 * i + c))
      = concat (map (\<lambda>i. vec_list (f ([0..<Suc v] ! j) i)) [0..<Suc u]) ! (3 * i + c)"
    using assms by (intro nth_concat_blocks) (simp_all add: length_concat_vec_list del: upt_Suc)
  also have "\<dots> = concat (map (\<lambda>i. vec_list (f j i)) [0..<Suc u]) ! (i * 3 + c)"
    using assms(2) by (simp add: nth_upt mult.commute del: upt_Suc)
  also have "\<dots> = vec_list (f j ([0..<Suc u] ! i)) ! c"
    using assms by (intro nth_concat_blocks) (simp_all del: upt_Suc)
  also have "\<dots> = vec_list (f j i) ! c"
    using assms(1) by (simp add: nth_upt del: upt_Suc)
  finally show ?thesis
    by (simp only: idx)
qed

lemma vec_at_grid:
  assumes "i \<le> u" and "j \<le> v"
  shows "vec_at (concat (map (\<lambda>j. concat (map (\<lambda>i. vec_list (f j i)) [0..<Suc u])) [0..<Suc v]))
           (j * (u + 1) + i) = f j i"
proof -
  have "vec_at (concat (map (\<lambda>j. concat (map (\<lambda>i. vec_list (f j i)) [0..<Suc u])) [0..<Suc v]))
           (j * (u + 1) + i) = (vec_list (f j i) ! 0, vec_list (f j i) ! 1, vec_list (f j i) ! 2)"
    unfolding vec_at_def
    using nth_grid [OF assms, of 0 f] nth_grid [OF assms, of 1 f] nth_grid [OF assms, of 2 f]
    by simp
  then show ?thesis
    by (simp add: vec_list_def split: prod.splits)
qed

lemma vlen_spec_tangent: "vlen (spec_tangent y beta h p) = \<bar>(\<bar>y\<bar> - h)\<^sup>2 / (2 * p)\<bar>"
proof -
  define r where "r = (\<bar>y\<bar> - h)\<^sup>2 / (2 * p)"
  have "sin beta * sin beta + cos beta * cos beta = 1"
    using sin_cos_squared_add [of beta] by (simp add: power2_eq_square)
  then have "(- r * sin beta) * (- r * sin beta) + 0 * 0 + (r * cos beta) * (r * cos beta)
      = (r * r) * 1"
    by (simp only: distrib_left [symmetric] mult_minus_left mult_minus_right minus_minus
        mult_zero_left add_0_right mult.assoc mult.left_commute [of "sin beta" r]
        mult.left_commute [of "cos beta" r])
  then have "hypot3 (- r * sin beta) 0 (r * cos beta) = \<bar>r\<bar>"
    by (simp add: hypot3_def)
  then show ?thesis
    by (simp add: spec_tangent_def vlen_def Let_def r_def)
qed

lemma tex_tangent_at:
  assumes "i \<le> uSeg" and "j \<le> vSeg"
  shows "vec_at (tangents (texGrid uSeg vSeg h p)) (j * (uSeg + 1) + i)
       = spec_tangent (row_y h vSeg j) (col_beta uSeg i) h p"
  unfolding texGrid_tangents using assms by (rule vec_at_grid)

lemma tex_position_at:
  assumes "i \<le> uSeg" and "j \<le> vSeg"
  shows "vec_at (positions (texGrid uSeg vSeg h p)) (j * (uSeg + 1) + i)
       = parabolicHummingTopVertex_tex (row_y h vSeg j) (col_beta uSeg i) h p"
  unfolding texGrid_positions using assms by (rule vec_at_grid)

text \<open>
  C6, as amended. After the geometry pass of the textured variant, for \<open>uSegments \<ge> 1\<close> and
  \<open>vSegments \<ge> 1\<close>, the tangent of the vertex in row \<open>j\<close> and column \<open>i\<close> is
  \<open>(-r sin beta, 0, r cos beta)\<close>, not normalised: its length is the radius
  \<open>r = (|y| - 1)\<^sup>2\<close> of its row (\<open>h = 1\<close>, \<open>p = 1/2\<close>), which is 1 only where \<open>r = 1\<close>.
\<close>

theorem tangent_lengths:
  assumes "1 \<le> uSeg" and "1 \<le> vSeg" and "i \<le> uSeg" and "j \<le> vSeg"
  shows "\<exists>m. CreateSurfaceData_tex (Num uSeg) (Num vSeg) = Some m
            \<and> vec_at (tangents m) (j * (uSeg + 1) + i)
                = spec_tangent (row_y 1 vSeg j) (col_beta uSeg i) 1 (1 / 2)
            \<and> vlen (vec_at (tangents m) (j * (uSeg + 1) + i)) = (\<bar>row_y 1 vSeg j\<bar> - 1)\<^sup>2"
proof -
  let ?m = "the (CreateSurfaceData_tex (Num uSeg) (Num vSeg))"
  have m: "CreateSurfaceData_tex (Num uSeg) (Num vSeg) = Some ?m"
    by (simp add: CreateSurfaceData_tex_eq)
  have "tangents ?m = tangents (texGrid uSeg vSeg 1 (1 / 2))"
    using assms(1,2) by (simp add: CreateSurfaceData_tex_eq)
  then have t: "vec_at (tangents ?m) (j * (uSeg + 1) + i)
      = spec_tangent (row_y 1 vSeg j) (col_beta uSeg i) 1 (1 / 2)"
    using tex_tangent_at [OF assms(3,4), of 1 "1 / 2"] by (simp only:)
  have "vlen (spec_tangent (row_y 1 vSeg j) (col_beta uSeg i) 1 (1 / 2)) = (\<bar>row_y 1 vSeg j\<bar> - 1)\<^sup>2"
    by (simp add: vlen_spec_tangent)
  with m t show ?thesis
    by (intro exI [of _ ?m]) (simp only: simp_thms)
qed

theorem tangent_lengths_witness:
  "(1::nat) \<le> 2 \<and> (1::nat) \<le> 5 \<and> (1::nat) \<le> 2 \<and> (2::nat) \<le> 5
   \<and> CreateSurfaceData_tex (Num 2) (Num 5) \<noteq> None
   \<and> vec_at (tangents (the (CreateSurfaceData_tex (Num 2) (Num 5)))) 7 = (0, 0, - (16 / 25))
   \<and> vlen (vec_at (tangents (the (CreateSurfaceData_tex (Num 2) (Num 5)))) 7) = 16 / 25"
proof -
  have "row_y 1 5 2 = - (1 / 5)" "col_beta 2 1 = pi"
    by (simp_all add: row_y_def col_beta_def)
  then have "spec_tangent (row_y 1 5 2) (col_beta 2 1) 1 (1 / 2) = (0, 0, - (16 / 25))"
    "(\<bar>row_y 1 5 2\<bar> - 1)\<^sup>2 = 16 / 25"
    by (simp_all add: spec_tangent_def Let_def power2_eq_square)
  with tangent_lengths [of 2 5 1 2] show ?thesis
    by auto
qed

lemma hypot3_z: "hypot3 0 0 c = \<bar>c\<bar>"
  by (simp add: hypot3_def)

lemma upt_5: "[0..<5] = [0, 1, 2, 3, 4]"
  by (simp add: upt_conv_Cons)

lemma buildIndices_2_5:
  "buildIndices 2 5 =
     [0, 3, 1, 1, 3, 4, 1, 4, 2, 2, 4, 5, 3, 6, 4, 4, 6, 7, 4, 7, 5, 5, 7, 8, 6, 9, 7, 7, 9, 10,
      7, 10, 8, 8, 10, 11, 9, 12, 10, 10, 12, 13, 10, 13, 11, 11, 13, 14, 12, 15, 13, 13, 15, 16,
      13, 16, 14, 14, 16, 17]"
  unfolding buildIndices_quads upt_5 upt_2 by (simp add: spec_quad_triangles_def Let_def)

lemma faces_at_7:
  "faces_at (buildIndices 2 5) 7 = [(4, 6, 7), (4, 7, 5), (5, 7, 8), (6, 9, 7), (7, 9, 10), (7, 10, 8)]"
  unfolding buildIndices_2_5 by (simp add: faces_at_def)

lemma positions_2_5:
  "vec_at (positions (texGrid 2 5 1 (1 / 2))) 4 = (- (4 / 25), - (3 / 5), 0)"
  "vec_at (positions (texGrid 2 5 1 (1 / 2))) 5 = (4 / 25, - (3 / 5), 0)"
  "vec_at (positions (texGrid 2 5 1 (1 / 2))) 6 = (16 / 25, - (1 / 5), 0)"
  "vec_at (positions (texGrid 2 5 1 (1 / 2))) 7 = (- (16 / 25), - (1 / 5), 0)"
  "vec_at (positions (texGrid 2 5 1 (1 / 2))) 8 = (16 / 25, - (1 / 5), 0)"
  "vec_at (positions (texGrid 2 5 1 (1 / 2))) 9 = (16 / 25, 1 / 5, 0)"
  "vec_at (positions (texGrid 2 5 1 (1 / 2))) 10 = (- (16 / 25), 1 / 5, 0)"
  using tex_position_at [of 1 2 1 5 1 "1 / 2"] tex_position_at [of 2 2 1 5 1 "1 / 2"]
    tex_position_at [of 0 2 2 5 1 "1 / 2"] tex_position_at [of 1 2 2 5 1 "1 / 2"]
    tex_position_at [of 2 2 2 5 1 "1 / 2"] tex_position_at [of 0 2 3 5 1 "1 / 2"]
    tex_position_at [of 1 2 3 5 1 "1 / 2"]
  by (simp_all add: parabolicHummingTopVertex_tex_def row_y_def col_beta_def Let_def)

lemma cross_lens_2_5:
  "map (face_cross_len (positions (texGrid 2 5 1 (1 / 2))))
     [(4, 6, 7), (4, 7, 5), (5, 7, 8), (6, 9, 7), (7, 9, 10), (7, 10, 8)]
   = [64 / 125, 16 / 125, 64 / 125, 64 / 125, 64 / 125, 64 / 125]"
  by (simp add: face_cross_len_def positions_2_5 edge_cross_def vlen_def hypot3_z)

text \<open>
  The claim C6 as it was stated gives every tangent the length 1 unless its vertex belongs
  to a degenerate face. With 2 and 5 segments, vertex 7 (row 2, column 1) has a tangent of
  length \<open>16/25\<close>, and the cross products of its six faces have the lengths \<open>64/125\<close> and
  \<open>16/125\<close>, far above \<open>1e-6\<close>.
\<close>

theorem tangent_not_unit_counterexample:
  "CreateSurfaceData_tex (Num 2) (Num 5) \<noteq> None
   \<and> \<not> tangent_unit_or_degenerate (the (CreateSurfaceData_tex (Num 2) (Num 5))) 7
   \<and> vlen (vec_at (tangents (the (CreateSurfaceData_tex (Num 2) (Num 5)))) 7) = 16 / 25
   \<and> faces_at (indices (the (CreateSurfaceData_tex (Num 2) (Num 5)))) 7
       = [(4, 6, 7), (4, 7, 5), (5, 7, 8), (6, 9, 7), (7, 9, 10), (7, 10, 8)]
   \<and> map (face_cross_len (positions (the (CreateSurfaceData_tex (Num 2) (Num 5)))))
         (faces_at (indices (the (CreateSurfaceData_tex (Num 2) (Num 5)))) 7)
       = [64 / 125, 16 / 125, 64 / 125, 64 / 125, 64 / 125, 64 / 125]"
proof -
  let ?m = "the (CreateSurfaceData_tex (Num 2) (Num 5))"
  have some: "CreateSurfaceData_tex (Num 2) (Num 5) \<noteq> None"
    by (simp add: CreateSurfaceData_tex_eq)
  have fields: "tangents ?m = tangents (texGrid 2 5 1 (1 / 2))"
    "positions ?m = positions (texGrid 2 5 1 (1 / 2))"
    "indices ?m = buildIndices 2 5"
    by (simp_all add: CreateSurfaceData_tex_eq)
  have "vec_at (tangents (texGrid 2 5 1 (1 / 2))) 7 = spec_tangent (row_y 1 5 2) (col_beta 2 1) 1 (1 / 2)"
    using tex_tangent_at [of 1 2 2 5 1 "1 / 2"] by simp
  then have len: "vlen (vec_at (tangents ?m) 7) = 16 / 25"
    by (simp add: fields vlen_spec_tangent row_y_def power2_eq_square)
  have faces: "faces_at (indices ?m) 7 = [(4, 6, 7), (4, 7, 5), (5, 7, 8), (6, 9, 7), (7, 9, 10), (7, 10, 8)]"
    by (simp only: fields faces_at_7)
  have lens: "map (face_cross_len (positions ?m)) (faces_at (indices ?m) 7)
      = [64 / 125, 16 / 125, 64 / 125, 64 / 125, 64 / 125, 64 / 125]"
    by (simp only: faces fields(2) cross_lens_2_5)
  have "\<not> (\<exists>t \<in> set (faces_at (indices ?m) 7). face_cross_len (positions ?m) t \<le> 1 / 1000000)"
  proof
    assume "\<exists>t \<in> set (faces_at (indices ?m) 7). face_cross_len (positions ?m) t \<le> 1 / 1000000"
    then obtain x where "x \<in> set (map (face_cross_len (positions ?m)) (faces_at (indices ?m) 7))"
      and "x \<le> 1 / 1000000"
      by auto
    then show False
      unfolding lens by auto
  qed
  with len have "\<not> tangent_unit_or_degenerate ?m 7"
    by (simp add: tangent_unit_or_degenerate_def)
  with some len faces lens show ?thesis
    by (simp only: simp_thms)
qed

end
